theory Spec2Isabelle
  imports Main "HOL-Library.Word"
begin

section \<open>The wire format, as a stream of tokens\<close>

text \<open>
  The insert classifier (\<^verbatim>\<open>insert.c\<close>) reads its payload through the pull parser
  \<^verbatim>\<open>qp_next\<close> and writes the per-pool sub-batches through the \<^verbatim>\<open>qp_add_*\<close> encoder calls.
  The codec itself is not part of the sources at hand; the classifier only depends on the
  sequence of tokens that the decoder hands out and on the sequence of tokens it appends to
  each packer, so both buffers are token lists here.

  A token carries its type tag and, for scalars, its value. An integer is a signed 64-bit
  value, a double is kept as its 64-bit pattern (the classifier only copies it), and a raw
  value is a byte string.
\<close>

datatype qp_types_t =
    QP_END
  | is_RAW: QP_RAW (via_raw: string)
  | is_INT64: QP_INT64 (via_int64: "64 word")
  | is_DOUBLE: QP_DOUBLE (via_real: "64 word")
  | QP_ARRAY1
  | QP_ARRAY2
  | QP_ARRAY3
  | QP_ARRAY4
  | QP_ARRAY5
  | QP_ARRAY_OPEN
  | QP_MAP_OPEN
  | QP_ARRAY_CLOSE
  | QP_MAP_CLOSE

type_synonym qp_unpacker_t = "qp_types_t list"

type_synonym qp_packer_t = "qp_types_t list"

text \<open>
  Modelled from the spec: \<^verbatim>\<open>qp_next\<close> (the decoder of section 4.1). Each call advances one
  token and hands it out; at the end of the buffer it answers \<^verbatim>\<open>QP_END\<close> and stays there.
  The caller either stores the token in its \<^verbatim>\<open>qp_obj\<close> slot or passes \<^verbatim>\<open>NULL\<close> and keeps
  only the type.
\<close>

fun qp_next :: "qp_unpacker_t \<Rightarrow> qp_types_t \<times> qp_unpacker_t" where
  "qp_next [] = (QP_END, [])"
| "qp_next (t # unpacker) = (t, unpacker)"

text \<open>
  Modelled from the spec: \<^verbatim>\<open>qp_is_array\<close> and \<^verbatim>\<open>qp_is_map\<close>, over the token table of
  section 4.1 (fixed-arity array headers and the open-array token; the open-map token).
\<close>

fun qp_is_array :: "qp_types_t \<Rightarrow> bool" where
  "qp_is_array QP_ARRAY1 = True"
| "qp_is_array QP_ARRAY2 = True"
| "qp_is_array QP_ARRAY3 = True"
| "qp_is_array QP_ARRAY4 = True"
| "qp_is_array QP_ARRAY5 = True"
| "qp_is_array QP_ARRAY_OPEN = True"
| "qp_is_array _ = False"

fun qp_is_map :: "qp_types_t \<Rightarrow> bool" where
  "qp_is_map QP_MAP_OPEN = True"
| "qp_is_map _ = False"

text \<open>
  Modelled from the spec: the encoder calls. Each appends one token to a packer;
  \<^verbatim>\<open>qp_add_raw_term\<close> is the terminated-raw shortcut, which stores the bytes followed by a
  terminating zero byte.
\<close>

definition qp_add_type :: "qp_packer_t \<Rightarrow> qp_types_t \<Rightarrow> qp_packer_t" where
  "qp_add_type packer tp = packer @ [tp]"

definition qp_add_raw :: "qp_packer_t \<Rightarrow> string \<Rightarrow> qp_packer_t" where
  "qp_add_raw packer raw = packer @ [QP_RAW raw]"

definition qp_add_raw_term :: "qp_packer_t \<Rightarrow> string \<Rightarrow> qp_packer_t" where
  "qp_add_raw_term packer raw = packer @ [QP_RAW (raw @ [CHR 0x00])]"

definition qp_add_int64 :: "qp_packer_t \<Rightarrow> 64 word \<Rightarrow> qp_packer_t" where
  "qp_add_int64 packer i = packer @ [QP_INT64 i]"

definition qp_add_double :: "qp_packer_t \<Rightarrow> 64 word \<Rightarrow> qp_packer_t" where
  "qp_add_double packer d = packer @ [QP_DOUBLE d]"

section \<open>The database handle\<close>

datatype series_tp = SIRIDB_SERIES_TP_INT | SIRIDB_SERIES_TP_DOUBLE | SIRIDB_SERIES_TP_STRING

text \<open>
  The fields of \<^verbatim>\<open>siridb_t\<close> that the insert path reads: the number of pools, the name hash
  of the cluster, the time-stamp window, the pool of this server and the series registry
  (name to value type).
\<close>

record siridb_t =
  pools_size :: nat
  sn_hash :: "string \<Rightarrow> nat"
  ts_min :: "64 word"
  ts_max :: "64 word"
  server_pool :: nat
  series :: "string \<rightharpoonup> series_tp"

text \<open>
  Modelled from the spec: \<^verbatim>\<open>siridb_pool_sn_raw\<close>, the pool router of section 4.3,
  \<open>pool_id = hash(series_name) mod pool_count\<close>.
\<close>

definition siridb_pool_sn_raw :: "siridb_t \<Rightarrow> string \<Rightarrow> nat" where
  "siridb_pool_sn_raw siridb raw = sn_hash siridb raw mod pools_size siridb"

text \<open>
  Modelled from the spec: \<^verbatim>\<open>siridb_int64_valid_ts\<close>, the window test of section 3 on the
  signed 64-bit time-stamp, \<open>ts_min \<le> ts \<le> ts_max\<close>.
\<close>

definition siridb_int64_valid_ts :: "siridb_t \<Rightarrow> 64 word \<Rightarrow> bool" where
  "siridb_int64_valid_ts siridb ts \<longleftrightarrow>
     sint (ts_min siridb) \<le> sint ts \<and> sint ts \<le> sint (ts_max siridb)"

section \<open>Insert error codes and their messages\<close>

text \<open>
  Modelled from the spec: the enumeration \<^verbatim>\<open>siridb_insert_err_t\<close>. Its seven members are
  the negative values from \<open>- SIRIDB_INSERT_ERR_SIZE\<close> up to \<open>-1\<close>, in the order of section 6,
  which is the order of the message table.
\<close>

definition SIRIDB_INSERT_ERR_SIZE :: int where
  "SIRIDB_INSERT_ERR_SIZE = 7"

definition ERR_EXPECTING_ARRAY :: int where
  "ERR_EXPECTING_ARRAY = - 7"

definition ERR_EXPECTING_SERIES_NAME :: int where
  "ERR_EXPECTING_SERIES_NAME = - 6"

definition ERR_EXPECTING_MAP_OR_ARRAY :: int where
  "ERR_EXPECTING_MAP_OR_ARRAY = - 5"

definition ERR_EXPECTING_INTEGER_TS :: int where
  "ERR_EXPECTING_INTEGER_TS = - 4"

definition ERR_TIMESTAMP_OUT_OF_RANGE :: int where
  "ERR_TIMESTAMP_OUT_OF_RANGE = - 3"

definition ERR_UNSUPPORTED_VALUE :: int where
  "ERR_UNSUPPORTED_VALUE = - 2"

definition ERR_EXPECTING_AT_LEAST_ONE_POINT :: int where
  "ERR_EXPECTING_AT_LEAST_ONE_POINT = - 1"

lemmas ERR_defs =
  ERR_EXPECTING_ARRAY_def ERR_EXPECTING_SERIES_NAME_def ERR_EXPECTING_MAP_OR_ARRAY_def
  ERR_EXPECTING_INTEGER_TS_def ERR_TIMESTAMP_OUT_OF_RANGE_def ERR_UNSUPPORTED_VALUE_def
  ERR_EXPECTING_AT_LEAST_ONE_POINT_def

definition err_msg :: "string list" where
  "err_msg =
    [''Expecting an array with points.'',
     ''Expecting a series name (string value) with an array of points where '' @
     ''each point should be an integer time-stamp with a value.'',
     ''Expecting an array or map containing series and points.'',
     ''Expecting an integer value as time-stamp.'',
     ''Received at least one time-stamp which is out-of-range.'',
     ''Unsupported value received. (only integer, string and float values '' @
     ''are supported).'',
     ''Expecting a series to have at least one point.'']"

text \<open>
  \<^verbatim>\<open>siridb_insert_err_msg\<close> reads \<^verbatim>\<open>err_msg[err + SIRIDB_INSERT_ERR_SIZE]\<close> with no check.
  A read outside the table is undefined in C; the model answers \<open>None\<close> there.
\<close>

definition err_msg_index :: "int \<Rightarrow> int" where
  "err_msg_index err = err + SIRIDB_INSERT_ERR_SIZE"

definition siridb_insert_err_msg :: "int \<Rightarrow> string option" where
  "siridb_insert_err_msg err =
     (let i = err_msg_index err
      in if 0 \<le> i \<and> i < int (length err_msg) then Some (err_msg ! nat i) else None)"

section \<open>The batch classifier\<close>

text \<open>
  The value \<^verbatim>\<open>switch\<close> inside the point loop of \<^verbatim>\<open>assign_by_map\<close>: a raw, an integer or a
  double is copied to the packer, anything else takes the \<^verbatim>\<open>default\<close> branch (\<open>None\<close>).
\<close>

fun add_value :: "qp_packer_t \<Rightarrow> qp_types_t \<Rightarrow> qp_packer_t option" where
  "add_value packer (QP_RAW raw) = Some (qp_add_raw packer raw)"
| "add_value packer (QP_INT64 i) = Some (qp_add_int64 packer i)"
| "add_value packer (QP_DOUBLE d) = Some (qp_add_double packer d)"
| "add_value packer _ = None"

lemma qp_next_length: "length (snd (qp_next unpacker)) \<le> length unpacker"
  by (cases unpacker) simp_all

lemma qp_next_length_less:
  "fst (qp_next unpacker) \<noteq> QP_END \<Longrightarrow> length (snd (qp_next unpacker)) < length unpacker"
  by (cases unpacker) simp_all

text \<open>
  The \<^verbatim>\<open>for\<close> loop over the points of one series. The state is the current type \<open>tp\<close>, the
  unpacker, the array of packers, the \<^verbatim>\<open>qp_obj\<close> slot and the 32-bit counter. \<open>Inl\<close> is a
  \<^verbatim>\<open>return\<close> from inside the loop (the error code, with the packers as they stand); \<open>Inr\<close> is
  the state at the normal exit of the loop. The counter wraps around at 32 bits; a payload
  of fewer than \<open>2^32\<close> tokens has too few points to reach that.
\<close>

function for_points ::
  "siridb_t \<Rightarrow> nat \<Rightarrow> qp_types_t \<Rightarrow> qp_unpacker_t \<Rightarrow> qp_packer_t list \<Rightarrow> qp_types_t \<Rightarrow> 32 word \<Rightarrow>
   (int \<times> qp_packer_t list) +
   (qp_types_t \<times> qp_unpacker_t \<times> qp_packer_t list \<times> qp_types_t \<times> 32 word)" where
  "for_points siridb pool tp unpacker packer qp_obj count =
    (if tp \<noteq> QP_ARRAY2 then Inr (tp, unpacker, packer, qp_obj, count)
     else
       let packer1 = packer[pool := qp_add_type (packer ! pool) QP_ARRAY2];
           qp_ts = fst (qp_next unpacker);
           unpacker1 = snd (qp_next unpacker)
       in if \<not> is_INT64 qp_ts then Inl (ERR_EXPECTING_INTEGER_TS, packer1)
          else if \<not> siridb_int64_valid_ts siridb (via_int64 qp_ts)
          then Inl (ERR_TIMESTAMP_OUT_OF_RANGE, packer1)
          else
            let packer2 = packer1[pool := qp_add_int64 (packer1 ! pool) (via_int64 qp_ts)];
                qp_val = fst (qp_next unpacker1);
                unpacker2 = snd (qp_next unpacker1)
            in (case add_value (packer2 ! pool) qp_val of
                  None \<Rightarrow> Inl (ERR_UNSUPPORTED_VALUE, packer2)
                | Some p \<Rightarrow>
                    for_points siridb pool (fst (qp_next unpacker2)) (snd (qp_next unpacker2))
                      (packer2[pool := p]) (fst (qp_next unpacker2)) (count + 1)))"
  by pat_completeness auto

termination
proof (relation "measure (\<lambda>(siridb, pool, tp, unpacker, packer, qp_obj, count). length unpacker)")
  show "wf (measure (\<lambda>(siridb, pool, tp, unpacker, packer, qp_obj, count). length unpacker))"
    by simp
next
  fix siridb :: siridb_t and pool :: nat and tp :: qp_types_t and unpacker :: qp_unpacker_t
    and packer :: "qp_packer_t list" and qp_obj :: qp_types_t and count :: "32 word"
    and packer1 qp_ts unpacker1 packer2 qp_val unpacker2 p
  assume ts: "qp_ts = fst (qp_next unpacker)" "\<not> \<not> is_INT64 qp_ts"
    and u1: "unpacker1 = snd (qp_next unpacker)"
    and u2: "unpacker2 = snd (qp_next unpacker1)"
  from ts have "fst (qp_next unpacker) \<noteq> QP_END" by auto
  then have "length unpacker1 < length unpacker"
    using u1 by (simp add: qp_next_length_less)
  moreover have "length unpacker2 \<le> length unpacker1"
    using u2 by (simp add: qp_next_length)
  moreover have "length (snd (qp_next unpacker2)) \<le> length unpacker2"
    by (rule qp_next_length)
  ultimately show
    "((siridb, pool, fst (qp_next unpacker2), snd (qp_next unpacker2), packer2[pool := p],
       fst (qp_next unpacker2), count + 1),
      (siridb, pool, tp, unpacker, packer, qp_obj, count))
     \<in> measure (\<lambda>(siridb, pool, tp, unpacker, packer, qp_obj, count). length unpacker)"
    by simp
qed

declare for_points.simps [simp del]

lemma for_points_length:
  "for_points siridb pool tp unpacker packer qp_obj count = Inr (tp', unpacker', rest) \<Longrightarrow>
   length unpacker' \<le> length unpacker"
proof (induction siridb pool tp unpacker packer qp_obj count rule: for_points.induct)
  case (1 siridb pool tp unpacker packer qp_obj count)
  show ?case
  proof (cases "tp = QP_ARRAY2")
    case False
    with "1.prems" show ?thesis by (simp add: for_points.simps)
  next
    case True
    let ?u1 = "snd (qp_next unpacker)"
    let ?u2 = "snd (qp_next ?u1)"
    let ?u3 = "snd (qp_next ?u2)"
    have le: "length ?u3 \<le> length unpacker"
      using qp_next_length [of unpacker] qp_next_length [of ?u1] qp_next_length [of ?u2]
      by linarith
    from True "1.prems" "1.IH" have "length unpacker' \<le> length ?u3"
      by (subst (asm) for_points.simps)
         (auto simp: Let_def split: if_splits option.splits)
    with le show ?thesis by linarith
  qed
qed

text \<open>
  The \<^verbatim>\<open>while (tp == QP_RAW)\<close> loop of \<^verbatim>\<open>assign_by_map\<close> over the series of the map. \<open>Inl\<close> is
  a \<^verbatim>\<open>return\<close> from inside the loop, \<open>Inr\<close> the state at the exit of the loop.
\<close>

function while_series ::
  "siridb_t \<Rightarrow> qp_types_t \<Rightarrow> qp_unpacker_t \<Rightarrow> qp_packer_t list \<Rightarrow> qp_types_t \<Rightarrow> 32 word \<Rightarrow>
   (int \<times> qp_packer_t list) + (qp_types_t \<times> qp_packer_t list \<times> 32 word)" where
  "while_series siridb tp unpacker packer qp_obj count =
    (if \<not> is_RAW tp then Inr (tp, packer, count)
     else
       let pool = siridb_pool_sn_raw siridb (via_raw qp_obj);
           packer1 = packer[pool := qp_add_raw_term (packer ! pool) (via_raw qp_obj)]
       in if \<not> qp_is_array (fst (qp_next unpacker)) then Inl (ERR_EXPECTING_ARRAY, packer1)
          else
            let unpacker1 = snd (qp_next unpacker);
                packer2 = packer1[pool := qp_add_type (packer1 ! pool) QP_ARRAY_OPEN];
                tp1 = fst (qp_next unpacker1);
                unpacker2 = snd (qp_next unpacker1)
            in if tp1 \<noteq> QP_ARRAY2 then Inl (ERR_EXPECTING_AT_LEAST_ONE_POINT, packer2)
               else
                 (case for_points siridb pool tp1 unpacker2 packer2 qp_obj count of
                    Inl r \<Rightarrow> Inl r
                  | Inr (tp2, unpacker3, packer3, qp_obj3, count3) \<Rightarrow>
                      let tp3 = (if tp2 = QP_ARRAY_CLOSE then fst (qp_next unpacker3) else tp2);
                          qp_obj4 =
                            (if tp2 = QP_ARRAY_CLOSE then fst (qp_next unpacker3) else qp_obj3);
                          unpacker4 =
                            (if tp2 = QP_ARRAY_CLOSE then snd (qp_next unpacker3) else unpacker3);
                          packer4 = packer3[pool := qp_add_type (packer3 ! pool) QP_ARRAY_CLOSE]
                      in while_series siridb tp3 unpacker4 packer4 qp_obj4 count3))"
  by pat_completeness auto

termination
proof (relation "measure (\<lambda>(siridb, tp, unpacker, packer, qp_obj, count). length unpacker)")
  show "wf (measure (\<lambda>(siridb, tp, unpacker, packer, qp_obj, count). length unpacker))"
    by simp
next
  fix siridb :: siridb_t and tp :: qp_types_t and unpacker :: qp_unpacker_t
    and packer :: "qp_packer_t list" and qp_obj :: qp_types_t and count :: "32 word"
    and pool packer1 unpacker1 packer2 tp1 unpacker2 x2 tp2 y unpacker3 ya packer3 yb qp_obj3
    and count3 :: "32 word" and tp3 qp_obj4 unpacker4 packer4
  assume arr: "\<not> \<not> qp_is_array (fst (qp_next unpacker))"
    and u1: "unpacker1 = snd (qp_next unpacker)"
    and u2: "unpacker2 = snd (qp_next unpacker1)"
    and fp: "for_points siridb pool tp1 unpacker2 packer2 qp_obj count = Inr x2"
    and x2: "(tp2, y) = x2" "(unpacker3, ya) = y"
    and u4: "unpacker4 = (if tp2 = QP_ARRAY_CLOSE then snd (qp_next unpacker3) else unpacker3)"
  from arr have "fst (qp_next unpacker) \<noteq> QP_END" by auto
  then have "length unpacker1 < length unpacker"
    using u1 by (simp add: qp_next_length_less)
  moreover have "length unpacker2 \<le> length unpacker1"
    using u2 by (simp add: qp_next_length)
  moreover have "length unpacker3 \<le> length unpacker2"
    using fp x2 for_points_length [of siridb pool tp1 unpacker2 packer2 qp_obj count tp2 unpacker3 ya]
    by simp
  moreover have "length unpacker4 \<le> length unpacker3"
    using u4 qp_next_length [of unpacker3] by simp
  ultimately show
    "((siridb, tp3, unpacker4, packer4, qp_obj4, count3),
      (siridb, tp, unpacker, packer, qp_obj, count))
     \<in> measure (\<lambda>(siridb, tp, unpacker, packer, qp_obj, count). length unpacker)"
    by simp
qed

declare while_series.simps [simp del]

text \<open>
  \<^verbatim>\<open>assign_by_map\<close>: the first \<^verbatim>\<open>qp_next\<close> fills the slot, the loop runs, and the token the
  loop stopped at must be the end of the map or of the stream. The result is the returned
  \<^verbatim>\<open>int32_t\<close> and the packers as the call leaves them.
\<close>

definition assign_by_map ::
  "siridb_t \<Rightarrow> qp_unpacker_t \<Rightarrow> qp_packer_t list \<Rightarrow> qp_types_t \<Rightarrow> int \<times> qp_packer_t list" where
  "assign_by_map siridb unpacker packer qp_obj =
    (let tp = fst (qp_next unpacker);
         qp_obj1 = fst (qp_next unpacker);
         unpacker1 = snd (qp_next unpacker)
     in case while_series siridb tp unpacker1 packer qp_obj1 0 of
          Inl r \<Rightarrow> r
        | Inr (tp', packer', count) \<Rightarrow>
            if tp' \<noteq> QP_END \<and> tp' \<noteq> QP_MAP_CLOSE then (ERR_EXPECTING_SERIES_NAME, packer')
            else (sint count, packer'))"

text \<open>
  \<^verbatim>\<open>siridb_insert_assign_pools\<close>: one packer per pool, each started with \<^verbatim>\<open>QP_MAP_OPEN\<close>; then
  the top-level token decides.
\<close>

definition siridb_insert_assign_pools ::
  "siridb_t \<Rightarrow> qp_unpacker_t \<Rightarrow> qp_types_t \<Rightarrow> int \<times> qp_packer_t list" where
  "siridb_insert_assign_pools siridb unpacker qp_obj =
    (let packer = map (\<lambda>n. qp_add_type [] QP_MAP_OPEN) [0 ..< pools_size siridb];
         tp = fst (qp_next unpacker);
         unpacker1 = snd (qp_next unpacker)
     in if qp_is_array tp then (0, packer)
        else if qp_is_map tp then assign_by_map siridb unpacker1 packer qp_obj
        else (ERR_EXPECTING_MAP_OR_ARRAY, packer))"

section \<open>Payloads\<close>

text \<open>
  A point is a time-stamp with a value token. A series of the payload is its name, its
  points, and the choice of the wire format for its array of points: a fixed-arity header
  without a closing token (for at most five points), or an open array with a closing
  token. A series is well formed when it has at least one point, every time-stamp is in
  the window and every value is an integer, a double or a raw.
\<close>

type_synonym point = "64 word \<times> qp_types_t"

type_synonym series_batch = "string \<times> bool \<times> point list"

definition is_value :: "qp_types_t \<Rightarrow> bool" where
  "is_value v \<longleftrightarrow> is_RAW v \<or> is_INT64 v \<or> is_DOUBLE v"

fun wf_point :: "siridb_t \<Rightarrow> point \<Rightarrow> bool" where
  "wf_point siridb (ts, v) \<longleftrightarrow> siridb_int64_valid_ts siridb ts \<and> is_value v"

fun wf_series :: "siridb_t \<Rightarrow> series_batch \<Rightarrow> bool" where
  "wf_series siridb (name, fixed, pts) \<longleftrightarrow>
     pts \<noteq> [] \<and> (fixed \<longrightarrow> length pts \<le> 5) \<and> list_all (wf_point siridb) pts"

fun enc_point :: "point \<Rightarrow> qp_types_t list" where
  "enc_point (ts, v) = [QP_ARRAY2, QP_INT64 ts, v]"

definition enc_points :: "point list \<Rightarrow> qp_types_t list" where
  "enc_points pts = concat (map enc_point pts)"

definition array_hdr :: "nat \<Rightarrow> qp_types_t" where
  "array_hdr n =
     (if n = 1 then QP_ARRAY1 else if n = 2 then QP_ARRAY2 else if n = 3 then QP_ARRAY3
      else if n = 4 then QP_ARRAY4 else if n = 5 then QP_ARRAY5 else QP_ARRAY_OPEN)"

fun enc_series :: "series_batch \<Rightarrow> qp_types_t list" where
  "enc_series (name, fixed, pts) =
     (if fixed then QP_RAW name # array_hdr (length pts) # enc_points pts
      else QP_RAW name # QP_ARRAY_OPEN # enc_points pts @ [QP_ARRAY_CLOSE])"

definition enc_map :: "series_batch list \<Rightarrow> qp_types_t list" where
  "enc_map ps = concat (map enc_series ps)"

text \<open>
  Each loop as \<^verbatim>\<open>qp_next\<close> enters it: the next token is read into the slot and
  the loop starts on it.
\<close>

definition run_points ::
  "siridb_t \<Rightarrow> nat \<Rightarrow> qp_unpacker_t \<Rightarrow> qp_packer_t list \<Rightarrow> 32 word \<Rightarrow>
   (int \<times> qp_packer_t list) +
   (qp_types_t \<times> qp_unpacker_t \<times> qp_packer_t list \<times> qp_types_t \<times> 32 word)" where
  "run_points siridb pool unpacker packer count =
     for_points siridb pool (fst (qp_next unpacker)) (snd (qp_next unpacker)) packer
       (fst (qp_next unpacker)) count"

text \<open>
  What the classifier is expected to write for one series: the terminated name, an open
  array, the points, the closing token; and the packers after a sequence of series, each
  series appended to the packer of its pool.
\<close>

fun out_series :: "series_batch \<Rightarrow> qp_types_t list" where
  "out_series (name, fixed, pts) =
     QP_RAW (name @ [CHR 0x00]) # QP_ARRAY_OPEN # enc_points pts @ [QP_ARRAY_CLOSE]"

fun series_pool :: "siridb_t \<Rightarrow> series_batch \<Rightarrow> nat" where
  "series_pool siridb (name, fixed, pts) = siridb_pool_sn_raw siridb name"

fun route :: "siridb_t \<Rightarrow> series_batch list \<Rightarrow> qp_packer_t list \<Rightarrow> qp_packer_t list" where
  "route siridb [] packer = packer"
| "route siridb (s # ps) packer =
     route siridb ps
       (packer[series_pool siridb s := packer ! series_pool siridb s @ out_series s])"

definition run_series ::
  "siridb_t \<Rightarrow> qp_unpacker_t \<Rightarrow> qp_packer_t list \<Rightarrow> 32 word \<Rightarrow>
   (int \<times> qp_packer_t list) + (qp_types_t \<times> qp_packer_t list \<times> 32 word)" where
  "run_series siridb unpacker packer count =
     while_series siridb (fst (qp_next unpacker)) (snd (qp_next unpacker)) packer
       (fst (qp_next unpacker)) count"

definition npoints :: "series_batch list \<Rightarrow> nat" where
  "npoints ps = sum_list (map (\<lambda>s. length (snd (snd s))) ps)"

fun last_open :: "series_batch list \<Rightarrow> bool" where
  "last_open [] = False"
| "last_open ps = fst (snd (last ps))"

text \<open>
  A payload is a map of series followed by the end of the map or of the stream. The body
  length of a package is a 32-bit value (\<^verbatim>\<open>pkg->len\<close>) and every token takes at
  least one byte, so a payload has fewer than \<open>2^32\<close> tokens.
\<close>

definition fin_ok :: "qp_types_t list \<Rightarrow> bool" where
  "fin_ok fin \<longleftrightarrow> fst (qp_next fin) = QP_END \<or> fst (qp_next fin) = QP_MAP_CLOSE"

definition enc_payload :: "series_batch list \<Rightarrow> qp_types_t list \<Rightarrow> qp_types_t list" where
  "enc_payload ps fin = QP_MAP_OPEN # enc_map ps @ fin"

text \<open>
  The sub-batch of pool \<open>k\<close>: the opening token and the series that the router assigns
  to \<open>k\<close>, in the order of the payload. The points written into a packer are counted by
  their \<^verbatim>\<open>QP_ARRAY2\<close> headers.
\<close>

definition sub_batch :: "siridb_t \<Rightarrow> nat \<Rightarrow> series_batch list \<Rightarrow> qp_packer_t" where
  "sub_batch siridb k ps =
     QP_MAP_OPEN # concat (map out_series (filter (\<lambda>s. series_pool siridb s = k) ps))"

definition count_points :: "qp_packer_t \<Rightarrow> nat" where
  "count_points packer = length (filter (\<lambda>t. t = QP_ARRAY2) packer)"

text \<open>
  Reading a sub-batch back: the entries of the map, each a key with its sequence of
  (time-stamp, value) pairs.
\<close>

fun dec_points :: "qp_types_t list \<Rightarrow> point list \<times> qp_types_t list" where
  "dec_points (QP_ARRAY2 # QP_INT64 ts # v # rest) =
     (case dec_points rest of (pts, rest') \<Rightarrow> ((ts, v) # pts, rest'))"
| "dec_points rest = ([], rest)"

lemma dec_points_length: "length (snd (dec_points toks)) \<le> length toks"
  by (induction toks rule: dec_points.induct) (auto split: prod.splits)

function dec_series :: "qp_types_t list \<Rightarrow> (string \<times> point list) list" where
  "dec_series toks =
     (case toks of
        QP_RAW name # QP_ARRAY_OPEN # rest \<Rightarrow>
          (name, fst (dec_points rest)) #
          (case snd (dec_points rest) of
             QP_ARRAY_CLOSE # rest' \<Rightarrow> dec_series rest'
           | _ \<Rightarrow> [])
      | _ \<Rightarrow> [])"
  by pat_completeness auto

termination
proof (relation "measure length")
  show "wf (measure length)" by simp
next
  fix toks :: "qp_types_t list" and x21 x22 x1 x21a x22a x21b x22b
  assume "toks = x21 # x22" "x22 = x21a # x22a" "snd (dec_points x22a) = x21b # x22b"
  with dec_points_length [of x22a] show "(x22b, toks) \<in> measure length"
    by simp
qed

declare dec_series.simps [simp del]

definition dec_sub_batch :: "qp_packer_t \<Rightarrow> (string \<times> point list) list" where
  "dec_sub_batch packer =
     (case packer of QP_MAP_OPEN # rest \<Rightarrow> dec_series rest | _ \<Rightarrow> [])"

fun sent_series :: "series_batch \<Rightarrow> string \<times> point list" where
  "sent_series (name, fixed, pts) = (name @ [CHR 0x00], pts)"

text \<open>
  A cluster of two pools with the name length as its hash, and a payload of three series,
  one name occurring twice.
\<close>

definition example_siridb :: siridb_t where
  "example_siridb =
     \<lparr>pools_size = 2, sn_hash = length, ts_min = 0, ts_max = 2000000000, server_pool = 0,
      series = Map.empty\<rparr>"

definition example_payload :: "series_batch list" where
  "example_payload =
     [(''a'', False, [(1000, QP_INT64 1)]),
      (''bb'', True, [(1001, QP_DOUBLE 2), (1002, QP_RAW ''x'')]),
      (''a'', False, [(1003, QP_INT64 4)])]"

text \<open>
  The start of a map payload up to some point inside a series: well-formed series, then
  the name and array header of a further series and some of its points.
\<close>

definition series_prefix ::
  "series_batch list \<Rightarrow> string \<Rightarrow> qp_types_t \<Rightarrow> point list \<Rightarrow> qp_types_t list" where
  "series_prefix ps name hdr pts = QP_MAP_OPEN # enc_map ps @ QP_RAW name # hdr # enc_points pts"

section \<open>The classifier as a left-to-right scan\<close>













section \<open>The insert dispatcher\<close>

text \<open>
  \<^verbatim>\<open>send_points_to_pools\<close> runs once for an insert job, as the callback of its async
  handle. What it does to the outside is a sequence of calls: on the series registry, on
  the transport and on the event loop. \<open>Storage_append\<close> and \<open>Pool_peer\<close> are the
  append interface of the storage and the peer of a pool, as the specification names them
  in section 6.
\<close>

datatype sn_msg_t = SN_MSG_RESULT | SN_MSG_OTHER nat

record sirinet_pkg_t =
  pkg_pid :: "64 word"
  pkg_tp :: sn_msg_t
  pkg_data :: qp_packer_t

datatype peer = Client_handle nat | Pool_peer nat

datatype call =
    Ct_get_sure string
  | Siridb_create_series string series_tp
  | Storage_append string "64 word" qp_types_t
  | Sirinet_send_pkg peer sirinet_pkg_t
  | Uv_close

text \<open>
  The fields of \<^verbatim>\<open>siridb_insert_t\<close>: the request id, the client handle, the number of
  points (a \<^verbatim>\<open>size_t\<close>, taken as 64 bits wide), the number of packers (a
  \<^verbatim>\<open>uint16_t\<close>) and the packers.
\<close>

record siridb_insert_t =
  insert_pid :: "64 word"
  insert_client :: nat
  insert_size :: "64 word"
  packer_size :: nat
  insert_packer :: "qp_packer_t list"

text \<open>The registry takes the name as a C string, which ends at the first zero byte.\<close>

definition c_str :: "string \<Rightarrow> string" where
  "c_str raw = takeWhile (\<lambda>c. c \<noteq> CHR 0x00) raw"

text \<open>
  Modelled from the spec: \<^verbatim>\<open>siridb_qp_map_tp\<close>, the value type of a series inferred from
  the type of a value token: integer, double, and byte string otherwise.
\<close>

fun siridb_qp_map_tp :: "qp_types_t \<Rightarrow> series_tp" where
  "siridb_qp_map_tp (QP_INT64 i) = SIRIDB_SERIES_TP_INT"
| "siridb_qp_map_tp (QP_DOUBLE d) = SIRIDB_SERIES_TP_DOUBLE"
| "siridb_qp_map_tp _ = SIRIDB_SERIES_TP_STRING"

text \<open>
  Modelled from the spec: \<^verbatim>\<open>qp_add_fmt\<close> with the format of the success message,
  \<^verbatim>\<open>"Inserted %zd point(s) successfully."\<close>: a raw value holding the text, the
  \<^verbatim>\<open>size_t\<close> argument printed as a signed decimal number.
\<close>

definition decimal_digits :: string where
  "decimal_digits = ''0123456789''"

function fmt_nat :: "nat \<Rightarrow> string" where
  "fmt_nat n =
     (if n < 10 then [decimal_digits ! n] else fmt_nat (n div 10) @ [decimal_digits ! (n mod 10)])"
  by pat_completeness auto

termination
  by (relation "measure id") auto

declare fmt_nat.simps [simp del]

definition fmt_zd :: "int \<Rightarrow> string" where
  "fmt_zd i = (if i < 0 then CHR ''-'' # fmt_nat (nat (- i)) else fmt_nat (nat i))"

definition qp_add_fmt_inserted :: "qp_packer_t \<Rightarrow> 64 word \<Rightarrow> qp_packer_t" where
  "qp_add_fmt_inserted packer sz =
     packer @ [QP_RAW (''Inserted '' @ fmt_zd (sint sz) @ '' point(s) successfully.'')]"

text \<open>
  The local pool path decodes its own sub-batch. The inner loop reads the further points
  of a series, two tokens after each \<^verbatim>\<open>QP_ARRAY2\<close>, and does nothing with them.
\<close>

function rest_points :: "qp_unpacker_t \<Rightarrow> qp_types_t \<times> qp_unpacker_t" where
  "rest_points unpacker =
     (if fst (qp_next unpacker) = QP_ARRAY2
      then rest_points (snd (qp_next (snd (qp_next (snd (qp_next unpacker))))))
      else (fst (qp_next unpacker), snd (qp_next unpacker)))"
  by pat_completeness auto

termination
proof (relation "measure length")
  show "wf (measure length)" by simp
next
  fix unpacker :: qp_unpacker_t
  assume "fst (qp_next unpacker) = QP_ARRAY2"
  then have "fst (qp_next unpacker) \<noteq> QP_END" by simp
  then have "length (snd (qp_next unpacker)) < length unpacker"
    by (rule qp_next_length_less)
  with qp_next_length [of "snd (qp_next unpacker)"]
    qp_next_length [of "snd (qp_next (snd (qp_next unpacker)))"]
  show "(snd (qp_next (snd (qp_next (snd (qp_next unpacker))))), unpacker) \<in> measure length"
    by simp
qed

declare rest_points.simps [simp del]

lemma rest_points_length: "length (snd (rest_points unpacker)) \<le> length unpacker"
proof (induction unpacker rule: rest_points.induct)
  case (1 unpacker)
  show ?case
  proof (cases "fst (qp_next unpacker) = QP_ARRAY2")
    case True
    with 1 have "length (snd (rest_points unpacker)) \<le>
        length (snd (qp_next (snd (qp_next (snd (qp_next unpacker))))))"
      by (subst rest_points.simps) simp
    with qp_next_length [of unpacker] qp_next_length [of "snd (qp_next unpacker)"]
      qp_next_length [of "snd (qp_next (snd (qp_next unpacker)))"]
    show ?thesis by linarith
  next
    case False
    then show ?thesis
      by (subst rest_points.simps) (simp add: qp_next_length)
  qed
qed

lemma rest_points_Nil: "rest_points [] = (QP_END, [])"
  by (subst rest_points.simps) simp

text \<open>
  The loop over the series of the local sub-batch: the registry slot of the name
  (\<^verbatim>\<open>ct_get_sure\<close>), four tokens read (array, first point, its time-stamp and value),
  the series created with the type of that value when the slot is empty, and the
  remaining points read.
\<close>

function local_series ::
  "(string \<rightharpoonup> series_tp) \<Rightarrow> qp_types_t \<Rightarrow> qp_types_t \<Rightarrow> qp_unpacker_t \<Rightarrow>
   (string \<rightharpoonup> series_tp) \<times> call list" where
  "local_series reg tp qp_series_name unpacker =
     (if \<not> is_RAW tp then (reg, [])
      else
        let key = c_str (via_raw qp_series_name);
            unpacker1 = snd (qp_next unpacker);
            unpacker2 = snd (qp_next unpacker1);
            qp_series_ts = fst (qp_next unpacker2);
            unpacker3 = snd (qp_next unpacker2);
            qp_series_val = fst (qp_next unpacker3);
            unpacker4 = snd (qp_next unpacker3);
            created = (reg key = None);
            reg1 = (if created then reg(key \<mapsto> siridb_qp_map_tp qp_series_val) else reg);
            tp1 = fst (rest_points unpacker4);
            unpacker5 = snd (rest_points unpacker4);
            tp2 = (if tp1 = QP_ARRAY_CLOSE then fst (qp_next unpacker5) else tp1);
            unpacker6 = (if tp1 = QP_ARRAY_CLOSE then snd (qp_next unpacker5) else unpacker5);
            r = local_series reg1 tp2 tp2 unpacker6
        in (fst r,
            Ct_get_sure key #
            (if created then [Siridb_create_series key (siridb_qp_map_tp qp_series_val)] else []) @
            snd r))"
  by pat_completeness auto

termination
proof (relation "measure (\<lambda>(reg, tp, qp_series_name, unpacker).
    length unpacker + (if is_RAW tp then 1 else 0))")
  show "wf (measure (\<lambda>(reg, tp, qp_series_name, unpacker).
    length unpacker + (if is_RAW tp then 1 else 0)))" by simp
next
  fix reg :: "string \<rightharpoonup> series_tp" and tp qp_series_name :: qp_types_t
    and unpacker :: qp_unpacker_t
    and key unpacker1 unpacker2 qp_series_ts unpacker3 qp_series_val unpacker4 created reg1 tp1 unpacker5
      tp2 unpacker6
  assume raw: "\<not> \<not> is_RAW tp"
    and u: "unpacker1 = snd (qp_next unpacker)" "unpacker2 = snd (qp_next unpacker1)"
      "unpacker3 = snd (qp_next unpacker2)" "unpacker4 = snd (qp_next unpacker3)"
      "unpacker5 = snd (rest_points unpacker4)"
      "unpacker6 = (if tp1 = QP_ARRAY_CLOSE then snd (qp_next unpacker5) else unpacker5)"
    and tp: "tp1 = fst (rest_points unpacker4)"
      "tp2 = (if tp1 = QP_ARRAY_CLOSE then fst (qp_next unpacker5) else tp1)"
  have "length unpacker6 + (if is_RAW tp2 then 1 else 0) < length unpacker + 1"
  proof (cases unpacker)
    case Nil
    with u tp show ?thesis by (simp add: rest_points_Nil)
  next
    case (Cons t rest)
    then have "length unpacker1 < length unpacker" using u(1) by simp
    moreover have "length unpacker6 \<le> length unpacker1"
      using u(2-6) qp_next_length [of unpacker1] qp_next_length [of unpacker2]
        qp_next_length [of unpacker3] rest_points_length [of unpacker4]
        qp_next_length [of unpacker5]
      by (auto split: if_splits)
    ultimately show ?thesis by simp
  qed
  with raw show "((reg1, tp2, tp2, unpacker6), (reg, tp, qp_series_name, unpacker)) \<in>
      measure (\<lambda>(reg, tp, qp_series_name, unpacker).
        length unpacker + (if is_RAW tp then 1 else 0))"
    by simp
qed

declare local_series.simps [simp del]

definition local_pool ::
  "(string \<rightharpoonup> series_tp) \<Rightarrow> qp_packer_t \<Rightarrow> (string \<rightharpoonup> series_tp) \<times> call list" where
  "local_pool reg buffer =
     (let unpacker = snd (qp_next buffer);
          tp = fst (qp_next unpacker)
      in local_series reg tp tp (snd (qp_next unpacker)))"

fun for_packers ::
  "nat \<Rightarrow> qp_packer_t list \<Rightarrow> nat list \<Rightarrow> (string \<rightharpoonup> series_tp) \<Rightarrow>
   (string \<rightharpoonup> series_tp) \<times> call list" where
  "for_packers pool packer [] reg = (reg, [])"
| "for_packers pool packer (n # ns) reg =
     (if n = pool
      then let r1 = local_pool reg (packer ! n);
               r2 = for_packers pool packer ns (fst r1)
           in (fst r2, snd r1 @ snd r2)
      else for_packers pool packer ns reg)"

text \<open>
  The callback: the loop over the packers, which only acts on the packer of the pool of
  this server, then the reply package to the client and the release of the job.
\<close>

definition send_points_to_pools :: "siridb_t \<Rightarrow> siridb_insert_t \<Rightarrow> siridb_t \<times> call list" where
  "send_points_to_pools siridb ins =
     (let r = for_packers (server_pool siridb) (insert_packer ins)
                [0 ..< packer_size ins] (series siridb);
          packer = qp_add_fmt_inserted
                     (qp_add_raw (qp_add_type [] QP_MAP_OPEN) ''success_msg'')
                     (insert_size ins);
          package = \<lparr>pkg_pid = insert_pid ins, pkg_tp = SN_MSG_RESULT, pkg_data = packer\<rparr>
      in (siridb\<lparr>series := fst r\<rparr>,
          snd r @ [Sirinet_send_pkg (Client_handle (insert_client ins)) package, Uv_close]))"

text \<open>
  \<^verbatim>\<open>siridb_insert_points\<close> copies its arguments into the job and schedules the callback.
\<close>

definition siridb_insert_points ::
  "siridb_t \<Rightarrow> 64 word \<Rightarrow> nat \<Rightarrow> 64 word \<Rightarrow> nat \<Rightarrow> qp_packer_t list \<Rightarrow> siridb_t \<times> call list" where
  "siridb_insert_points siridb pid client sz psize packer =
     send_points_to_pools siridb
       \<lparr>insert_pid = pid, insert_client = client, insert_size = sz,
        packer_size = psize, insert_packer = take psize packer\<rparr>"

text \<open>
  The calls by kind, and what the local pool path is expected to do for a sequence of
  series: a lookup for each, and a creation for each name the registry does not hold yet.
\<close>

fun is_registry_call :: "call \<Rightarrow> bool" where
  "is_registry_call (Ct_get_sure key) = True"
| "is_registry_call (Siridb_create_series key tp) = True"
| "is_registry_call _ = False"

fun is_send :: "call \<Rightarrow> bool" where
  "is_send (Sirinet_send_pkg p pkg) = True"
| "is_send _ = False"

fun is_lookup :: "call \<Rightarrow> bool" where
  "is_lookup (Ct_get_sure key) = True"
| "is_lookup _ = False"

definition series_key :: "series_batch \<Rightarrow> string" where
  "series_key s = c_str (fst (sent_series s))"

definition first_value_tp :: "series_batch \<Rightarrow> series_tp" where
  "first_value_tp s = siridb_qp_map_tp (snd (hd (snd (snd s))))"

fun registry_after :: "(string \<rightharpoonup> series_tp) \<Rightarrow> series_batch list \<Rightarrow> (string \<rightharpoonup> series_tp)" where
  "registry_after reg [] = reg"
| "registry_after reg (s # ss) =
     registry_after
       (if reg (series_key s) = None then reg(series_key s \<mapsto> first_value_tp s) else reg) ss"

fun registry_calls :: "(string \<rightharpoonup> series_tp) \<Rightarrow> series_batch list \<Rightarrow> call list" where
  "registry_calls reg [] = []"
| "registry_calls reg (s # ss) =
     Ct_get_sure (series_key s) #
     (if reg (series_key s) = None then [Siridb_create_series (series_key s) (first_value_tp s)]
      else []) @
     registry_calls
       (if reg (series_key s) = None then reg(series_key s \<mapsto> first_value_tp s) else reg) ss"

text \<open>
  Modelled from the spec: the request handler that calls the classifier and then
  \<^verbatim>\<open>siridb_insert_points\<close> is not part of the sources. Following section 3, an insert job
  is created when classification succeeds, with the returned count as its size and one
  packer per pool; the reply to a failed classification is not modelled.
\<close>

definition insert_job ::
  "siridb_t \<Rightarrow> qp_unpacker_t \<Rightarrow> 64 word \<Rightarrow> nat \<Rightarrow> siridb_t \<times> call list" where
  "insert_job siridb unpacker pid client =
     (let r = siridb_insert_assign_pools siridb unpacker QP_END
      in if fst r < 0 then (siridb, [])
         else siridb_insert_points siridb pid client (word_of_int (fst r)) (pools_size siridb)
                (snd r))"

definition success_pkg :: "64 word \<Rightarrow> string \<Rightarrow> sirinet_pkg_t" where
  "success_pkg pid n =
     \<lparr>pkg_pid = pid, pkg_tp = SN_MSG_RESULT,
      pkg_data = [QP_MAP_OPEN, QP_RAW ''success_msg'',
                  QP_RAW (''Inserted '' @ n @ '' point(s) successfully.'')]\<rparr>"

section \<open>The admin client\<close>

unbundle bit_operations_syntax

text \<open>
  \<^verbatim>\<open>client.c\<close> drives one request of the admin client through call-backs of the event
  loop: the connection, the write of a package, a package received, and the request timer.
  Each call-back is a function from the client record to the new record and the calls it
  makes, in order. Allocations are taken to succeed.
\<close>

definition CLIENT_REQUEST_TIMEOUT :: nat where
  "CLIENT_REQUEST_TIMEOUT = 15000"

definition CLIENT_FLAGS_TIMEOUT :: "8 word" where
  "CLIENT_FLAGS_TIMEOUT = 1"

datatype client_request = CLIENT_REQUEST_INIT | CLIENT_REQUEST_STATUS

text \<open>
  The package types of the protocol that \<^verbatim>\<open>CLIENT_on_data\<close> tells apart; every other type
  byte is \<open>CPROTO_OTHER\<close>. The type bytes of the two requests the client sends are not part
  of the sources and are parameters.
\<close>

datatype cproto_server_t =
    CPROTO_RES_AUTH_SUCCESS
  | CPROTO_RES_QUERY
  | CPROTO_ERR_AUTH_CREDENTIALS
  | CPROTO_ERR_AUTH_UNKNOWN_DB
  | CPROTO_ERR_MSG
  | CPROTO_ERR_QUERY
  | CPROTO_ERR_INSERT
  | CPROTO_ERR_SERVER
  | CPROTO_ERR_POOL
  | CPROTO_ERR_USER_ACCESS
  | CPROTO_OTHER nat

record cproto_client_t =
  CPROTO_REQ_AUTH :: "8 word"
  CPROTO_REQ_QUERY :: "8 word"

record sirinet_req_t =
  req_pid :: "16 word"
  req_tp :: "8 word"
  req_checkbit :: "8 word"
  req_data :: qp_packer_t

record sirinet_res_t =
  res_pid :: "16 word"
  res_tp :: cproto_server_t
  res_data :: qp_unpacker_t

record siri_admin_client_t =
  adm_pid :: "16 word"
  adm_port :: "16 word"
  adm_host :: string
  adm_username :: string
  adm_password :: string
  adm_dbname :: string
  adm_dbpath :: string
  adm_stream :: nat
  adm_request :: client_request
  adm_flags :: "8 word"
  adm_pkg :: "sirinet_req_t option"

text \<open>The messages of \<^verbatim>\<open>CLIENT_err\<close> and of the log, by their format and arguments.\<close>

datatype client_msg =
    Memory_allocation_error
  | Socket_write_error int
  | Connecting_failed string "16 word" int
  | Unexpected_query_response
  | Invalid_credentials string string "16 word"
  | Database_does_not_exist string string "16 word"
  | Unexpected_response cproto_server_t string "16 word"
  | Error_on_server string "16 word" string
  | Unexpected_error_on_server string "16 word"
  | Invalid_server_status_response
  | Request_timeout
  | Response_timed_out_earlier

datatype client_call =
    Log_debug
  | Log_error client_msg
  | Sirinet_pkg_send_err nat "16 word" client_msg
  | Siri_admin_request_rollback string
  | Sirinet_socket_decref
  | Uv_timer_init
  | Uv_timer_start nat
  | Uv_timer_stop
  | Uv_timer_close
  | Uv_read_start
  | Uv_write sirinet_req_t
  | Free_pkg

definition CLIENT_err :: "siri_admin_client_t \<Rightarrow> client_msg \<Rightarrow> client_call list" where
  "CLIENT_err adm_client msg =
     [Sirinet_pkg_send_err (adm_stream adm_client) (adm_pid adm_client) msg,
      Log_error msg,
      Siri_admin_request_rollback (adm_dbpath adm_client),
      Sirinet_socket_decref,
      Uv_timer_close]"

definition CLIENT_send_pkg ::
  "siri_admin_client_t \<Rightarrow> sirinet_req_t \<Rightarrow> siri_admin_client_t \<times> client_call list" where
  "CLIENT_send_pkg adm_client pkg =
     (let pkg1 = pkg\<lparr>req_checkbit := req_tp pkg XOR 255\<rparr>
      in (adm_client\<lparr>adm_pkg := Some pkg1\<rparr>,
          [Uv_timer_start CLIENT_REQUEST_TIMEOUT, Uv_write pkg1]))"

definition CLIENT_write_cb ::
  "siri_admin_client_t \<Rightarrow> int \<Rightarrow> siri_admin_client_t \<times> client_call list" where
  "CLIENT_write_cb adm_client status =
     (adm_client,
      (if status \<noteq> 0 then Uv_timer_stop # CLIENT_err adm_client (Socket_write_error status)
       else []) @ [Free_pkg])"

definition CLIENT_on_connect ::
  "cproto_client_t \<Rightarrow> siri_admin_client_t \<Rightarrow> int \<Rightarrow> siri_admin_client_t \<times> client_call list" where
  "CLIENT_on_connect cproto adm_client status =
     (if status = 0
      then
        let packer = [QP_ARRAY3, QP_RAW (adm_username adm_client),
                      QP_RAW (adm_password adm_client), QP_RAW (adm_dbname adm_client)];
            pkg = \<lparr>req_pid = 0, req_tp = CPROTO_REQ_AUTH cproto, req_checkbit = 0,
                   req_data = packer\<rparr>;
            r = CLIENT_send_pkg adm_client pkg
        in (fst r, [Uv_timer_init, Log_debug, Uv_read_start] @ snd r)
      else
        (adm_client,
         Uv_timer_init #
         CLIENT_err adm_client
           (Connecting_failed (adm_host adm_client) (adm_port adm_client) status)))"

definition CLIENT_on_auth_success ::
  "cproto_client_t \<Rightarrow> siri_admin_client_t \<Rightarrow> siri_admin_client_t \<times> client_call list" where
  "CLIENT_on_auth_success cproto adm_client =
     (let adm_client1 = adm_client\<lparr>adm_request := CLIENT_REQUEST_STATUS\<rparr>;
          packer = [QP_ARRAY1, QP_RAW ''list servers status''];
          pkg = \<lparr>req_pid = 0, req_tp = CPROTO_REQ_QUERY cproto, req_checkbit = 0,
                 req_data = packer\<rparr>
      in CLIENT_send_pkg adm_client1 pkg)"

definition CLIENT_on_error_msg ::
  "siri_admin_client_t \<Rightarrow> sirinet_res_t \<Rightarrow> client_call list" where
  "CLIENT_on_error_msg adm_client pkg =
     (let unpacker = res_data pkg;
          unpacker1 = snd (qp_next unpacker);
          unpacker2 = snd (qp_next unpacker1);
          qp_err = fst (qp_next unpacker2)
      in if qp_is_map (fst (qp_next unpacker)) \<and> is_RAW (fst (qp_next unpacker1)) \<and>
            is_RAW qp_err
         then CLIENT_err adm_client
                (Error_on_server (adm_host adm_client) (adm_port adm_client) (via_raw qp_err))
         else CLIENT_err adm_client
                (Unexpected_error_on_server (adm_host adm_client) (adm_port adm_client)))"

text \<open>
  The body of \<^verbatim>\<open>CLIENT_on_request_status\<close> is unfinished in the sources (a statement
  without its semicolon, a value returned from a \<^verbatim>\<open>void\<close> function). All it does to the
  outside is call \<^verbatim>\<open>CLIENT_err\<close>, and it never writes to the client record; the messages
  of these calls, for a given package body, are the parameter \<open>status_msgs\<close>.
\<close>

definition CLIENT_on_request_status ::
  "(qp_unpacker_t \<Rightarrow> client_msg list) \<Rightarrow> siri_admin_client_t \<Rightarrow> sirinet_res_t \<Rightarrow>
   client_call list" where
  "CLIENT_on_request_status status_msgs adm_client pkg =
     concat (map (CLIENT_err adm_client) (status_msgs (res_data pkg)))"

fun CLIENT_on_response ::
  "(qp_unpacker_t \<Rightarrow> client_msg list) \<Rightarrow> cproto_client_t \<Rightarrow> siri_admin_client_t \<Rightarrow>
   sirinet_res_t \<Rightarrow> cproto_server_t \<Rightarrow> siri_admin_client_t \<times> client_call list" where
  "CLIENT_on_response status_msgs cproto adm_client pkg CPROTO_RES_AUTH_SUCCESS =
     CLIENT_on_auth_success cproto adm_client"
| "CLIENT_on_response status_msgs cproto adm_client pkg CPROTO_RES_QUERY =
     (case adm_request adm_client of
        CLIENT_REQUEST_STATUS \<Rightarrow>
          (adm_client, CLIENT_on_request_status status_msgs adm_client pkg)
      | CLIENT_REQUEST_INIT \<Rightarrow> (adm_client, CLIENT_err adm_client Unexpected_query_response))"
| "CLIENT_on_response status_msgs cproto adm_client pkg CPROTO_ERR_AUTH_CREDENTIALS =
     (adm_client,
      CLIENT_err adm_client
        (Invalid_credentials (adm_dbname adm_client) (adm_host adm_client)
           (adm_port adm_client)))"
| "CLIENT_on_response status_msgs cproto adm_client pkg CPROTO_ERR_AUTH_UNKNOWN_DB =
     (adm_client,
      CLIENT_err adm_client
        (Database_does_not_exist (adm_dbname adm_client) (adm_host adm_client)
           (adm_port adm_client)))"
| "CLIENT_on_response status_msgs cproto adm_client pkg CPROTO_ERR_MSG =
     (adm_client, CLIENT_on_error_msg adm_client pkg)"
| "CLIENT_on_response status_msgs cproto adm_client pkg CPROTO_ERR_QUERY =
     (adm_client, CLIENT_on_error_msg adm_client pkg)"
| "CLIENT_on_response status_msgs cproto adm_client pkg CPROTO_ERR_INSERT =
     (adm_client, CLIENT_on_error_msg adm_client pkg)"
| "CLIENT_on_response status_msgs cproto adm_client pkg CPROTO_ERR_SERVER =
     (adm_client, CLIENT_on_error_msg adm_client pkg)"
| "CLIENT_on_response status_msgs cproto adm_client pkg CPROTO_ERR_POOL =
     (adm_client, CLIENT_on_error_msg adm_client pkg)"
| "CLIENT_on_response status_msgs cproto adm_client pkg CPROTO_ERR_USER_ACCESS =
     (adm_client, CLIENT_on_error_msg adm_client pkg)"
| "CLIENT_on_response status_msgs cproto adm_client pkg (CPROTO_OTHER tp) =
     (adm_client,
      CLIENT_err adm_client
        (Unexpected_response (CPROTO_OTHER tp) (adm_host adm_client) (adm_port adm_client)))"

definition CLIENT_on_data ::
  "(qp_unpacker_t \<Rightarrow> client_msg list) \<Rightarrow> cproto_client_t \<Rightarrow> siri_admin_client_t \<Rightarrow>
   sirinet_res_t \<Rightarrow> siri_admin_client_t \<times> client_call list" where
  "CLIENT_on_data status_msgs cproto adm_client pkg =
     (if adm_flags adm_client AND CLIENT_FLAGS_TIMEOUT \<noteq> 0
      then (adm_client, [Log_debug, Log_error Response_timed_out_earlier])
      else
        let r = CLIENT_on_response status_msgs cproto adm_client pkg (res_tp pkg)
        in (fst r, [Log_debug, Uv_timer_stop] @ snd r))"

definition CLIENT_request_timeout ::
  "siri_admin_client_t \<Rightarrow> siri_admin_client_t \<times> client_call list" where
  "CLIENT_request_timeout adm_client =
     (let adm_client1 = adm_client\<lparr>adm_flags := adm_flags adm_client OR CLIENT_FLAGS_TIMEOUT\<rparr>
      in (adm_client1, CLIENT_err adm_client1 Request_timeout))"

text \<open>The call-backs of one request, as the event loop runs them one after the other.\<close>

datatype client_event =
    On_connect int
  | Write_cb int
  | On_data sirinet_res_t
  | Timer_expired

fun client_step ::
  "(qp_unpacker_t \<Rightarrow> client_msg list) \<Rightarrow> cproto_client_t \<Rightarrow> siri_admin_client_t \<Rightarrow>
   client_event \<Rightarrow> siri_admin_client_t \<times> client_call list" where
  "client_step status_msgs cproto adm_client (On_connect status) =
     CLIENT_on_connect cproto adm_client status"
| "client_step status_msgs cproto adm_client (Write_cb status) =
     CLIENT_write_cb adm_client status"
| "client_step status_msgs cproto adm_client (On_data pkg) =
     CLIENT_on_data status_msgs cproto adm_client pkg"
| "client_step status_msgs cproto adm_client Timer_expired =
     CLIENT_request_timeout adm_client"

fun client_run ::
  "(qp_unpacker_t \<Rightarrow> client_msg list) \<Rightarrow> cproto_client_t \<Rightarrow> siri_admin_client_t \<Rightarrow>
   client_event list \<Rightarrow> (client_event \<times> siri_admin_client_t \<times> client_call list) list" where
  "client_run status_msgs cproto adm_client [] = []"
| "client_run status_msgs cproto adm_client (ev # evs) =
     (ev, client_step status_msgs cproto adm_client ev) #
     client_run status_msgs cproto (fst (client_step status_msgs cproto adm_client ev)) evs"

definition example_adm :: siri_admin_client_t where
  "example_adm =
     \<lparr>adm_pid = 3, adm_port = 9000, adm_host = ''127.0.0.1'', adm_username = ''iris'',
      adm_password = ''siri'', adm_dbname = ''dbtest'', adm_dbpath = ''/tmp/dbtest/'',
      adm_stream = 7, adm_request = CLIENT_REQUEST_INIT, adm_flags = 0, adm_pkg = None\<rparr>"

definition example_res :: sirinet_res_t where
  "example_res = \<lparr>res_pid = 0, res_tp = CPROTO_RES_AUTH_SUCCESS, res_data = []\<rparr>"

definition example_events :: "client_event list" where
  "example_events = [On_connect 0, Timer_expired, On_data example_res]"

section \<open>Properties of the message table\<close>

lemma err_msg_length: "length err_msg = 7"
  by (simp add: err_msg_def)

text \<open>
  C10: for every code \<open>e\<close> of the seven-value enumeration, that is
  \<open>- SIRIDB_INSERT_ERR_SIZE \<le> e \<le> -1\<close>, \<^verbatim>\<open>siridb_insert_err_msg\<close> reads the table at
  \<open>e + SIRIDB_INSERT_ERR_SIZE\<close>, which lies in \<open>[0, 6]\<close>, and returns the fixed, non-empty
  message of that code; for every other \<open>e\<close> the index is outside the table.
\<close>

theorem siridb_insert_err_msg_in_bounds:
  "(- SIRIDB_INSERT_ERR_SIZE \<le> e \<and> e \<le> - 1 \<longrightarrow>
      0 \<le> err_msg_index e \<and> err_msg_index e \<le> 6 \<and>
      (\<exists>m. siridb_insert_err_msg e = Some m \<and> m = err_msg ! nat (err_msg_index e) \<and> m \<noteq> [])) \<and>
   (\<not> (- SIRIDB_INSERT_ERR_SIZE \<le> e \<and> e \<le> - 1) \<longrightarrow>
      (err_msg_index e < 0 \<or> int (length err_msg) \<le> err_msg_index e) \<and>
      siridb_insert_err_msg e = None) \<and>
   siridb_insert_err_msg ERR_EXPECTING_ARRAY = Some ''Expecting an array with points.'' \<and>
   siridb_insert_err_msg ERR_EXPECTING_SERIES_NAME =
     Some (''Expecting a series name (string value) with an array of points where '' @
           ''each point should be an integer time-stamp with a value.'') \<and>
   siridb_insert_err_msg ERR_EXPECTING_MAP_OR_ARRAY =
     Some ''Expecting an array or map containing series and points.'' \<and>
   siridb_insert_err_msg ERR_EXPECTING_INTEGER_TS =
     Some ''Expecting an integer value as time-stamp.'' \<and>
   siridb_insert_err_msg ERR_TIMESTAMP_OUT_OF_RANGE =
     Some ''Received at least one time-stamp which is out-of-range.'' \<and>
   siridb_insert_err_msg ERR_UNSUPPORTED_VALUE =
     Some (''Unsupported value received. (only integer, string and float values '' @
           ''are supported).'') \<and>
   siridb_insert_err_msg ERR_EXPECTING_AT_LEAST_ONE_POINT =
     Some ''Expecting a series to have at least one point.''"
proof -
  have in_range: "0 \<le> err_msg_index e \<and> err_msg_index e \<le> 6 \<and>
      (\<exists>m. siridb_insert_err_msg e = Some m \<and> m = err_msg ! nat (err_msg_index e) \<and> m \<noteq> [])"
    if "- SIRIDB_INSERT_ERR_SIZE \<le> e \<and> e \<le> - 1"
  proof -
    from that have "e = -7 \<or> e = -6 \<or> e = -5 \<or> e = -4 \<or> e = -3 \<or> e = -2 \<or> e = -1"
      unfolding SIRIDB_INSERT_ERR_SIZE_def by arith
    then show ?thesis
      by (elim disjE)
         (simp_all add: siridb_insert_err_msg_def err_msg_index_def SIRIDB_INSERT_ERR_SIZE_def
            err_msg_def)
  qed
  have out_range: "(err_msg_index e < 0 \<or> int (length err_msg) \<le> err_msg_index e) \<and>
      siridb_insert_err_msg e = None"
    if "\<not> (- SIRIDB_INSERT_ERR_SIZE \<le> e \<and> e \<le> - 1)"
    using that
    by (auto simp: siridb_insert_err_msg_def err_msg_index_def SIRIDB_INSERT_ERR_SIZE_def
          err_msg_length)
  have msgs: "siridb_insert_err_msg ERR_EXPECTING_ARRAY = Some ''Expecting an array with points.''"
    "siridb_insert_err_msg ERR_EXPECTING_SERIES_NAME =
     Some (''Expecting a series name (string value) with an array of points where '' @
           ''each point should be an integer time-stamp with a value.'')"
    "siridb_insert_err_msg ERR_EXPECTING_MAP_OR_ARRAY =
     Some ''Expecting an array or map containing series and points.''"
    "siridb_insert_err_msg ERR_EXPECTING_INTEGER_TS =
     Some ''Expecting an integer value as time-stamp.''"
    "siridb_insert_err_msg ERR_TIMESTAMP_OUT_OF_RANGE =
     Some ''Received at least one time-stamp which is out-of-range.''"
    "siridb_insert_err_msg ERR_UNSUPPORTED_VALUE =
     Some (''Unsupported value received. (only integer, string and float values '' @
           ''are supported).'')"
    "siridb_insert_err_msg ERR_EXPECTING_AT_LEAST_ONE_POINT =
     Some ''Expecting a series to have at least one point.''"
    by (simp_all add: siridb_insert_err_msg_def err_msg_index_def SIRIDB_INSERT_ERR_SIZE_def
          err_msg_def ERR_defs)
  from in_range out_range msgs show ?thesis by blast
qed

theorem siridb_insert_err_msg_in_bounds_witness:
  "err_msg_index (- 3) = 4 \<and>
   siridb_insert_err_msg (- 3) = Some ''Received at least one time-stamp which is out-of-range.'' \<and>
   err_msg_index 0 = 7 \<and> siridb_insert_err_msg 0 = None \<and>
   err_msg_index (- 8) = - 1 \<and> siridb_insert_err_msg (- 8) = None"
  using siridb_insert_err_msg_in_bounds [of "- 3"] siridb_insert_err_msg_in_bounds [of 0]
    siridb_insert_err_msg_in_bounds [of "- 8"]
  by (simp add: SIRIDB_INSERT_ERR_SIZE_def err_msg_index_def err_msg_def)

section \<open>The classifier on well-formed payloads\<close>

lemma add_value_wf: "is_value v \<Longrightarrow> add_value p v = Some (p @ [v])"
  by (cases v) (simp_all add: is_value_def qp_add_raw_def qp_add_int64_def qp_add_double_def)

lemma for_points_one:
  assumes "wf_point siridb (ts, v)" and "pool < length packer"
  shows "for_points siridb pool QP_ARRAY2 (QP_INT64 ts # v # rest) packer qp_obj count =
         run_points siridb pool rest (packer[pool := packer ! pool @ enc_point (ts, v)]) (count + 1)"
  using assms
  by (subst for_points.simps)
     (simp add: run_points_def Let_def add_value_wf qp_add_type_def qp_add_int64_def)

lemma run_points_enc:
  assumes "list_all (wf_point siridb) pts" and "pool < length packer"
  shows "run_points siridb pool (enc_points pts @ rest) packer count =
         run_points siridb pool rest (packer[pool := packer ! pool @ enc_points pts])
           (count + of_nat (length pts))"
  using assms
proof (induction pts arbitrary: packer count)
  case Nil
  then show ?case by (simp add: enc_points_def)
next
  case (Cons p pts)
  obtain ts v where p: "p = (ts, v)" by (cases p)
  from Cons.prems p have wf: "wf_point siridb (ts, v)" and wfs: "list_all (wf_point siridb) pts"
    by simp_all
  let ?packer = "packer[pool := packer ! pool @ enc_point (ts, v)]"
  have "run_points siridb pool (enc_points (p # pts) @ rest) packer count =
        for_points siridb pool QP_ARRAY2 (QP_INT64 ts # v # enc_points pts @ rest) packer
          QP_ARRAY2 count"
    by (simp add: run_points_def enc_points_def p)
  also have "\<dots> = run_points siridb pool (enc_points pts @ rest) ?packer (count + 1)"
    using wf Cons.prems(2) by (rule for_points_one)
  also have "\<dots> = run_points siridb pool rest
      (?packer[pool := ?packer ! pool @ enc_points pts]) (count + 1 + of_nat (length pts))"
    using wfs Cons.prems(2) by (intro Cons.IH) simp_all
  finally show ?case
    using Cons.prems(2) by (simp add: enc_points_def p ac_simps)
qed

lemma pool_less: "0 < pools_size siridb \<Longrightarrow> siridb_pool_sn_raw siridb raw < pools_size siridb"
  by (simp add: siridb_pool_sn_raw_def)

lemma array_hdr_is_array: "qp_is_array (array_hdr n)"
  by (simp add: array_hdr_def)

lemma enc_points_Cons: "enc_points ((ts, v) # pts) = QP_ARRAY2 # QP_INT64 ts # v # enc_points pts"
  by (simp add: enc_points_def)

lemma run_points_exit:
  "fst (qp_next rest) \<noteq> QP_ARRAY2 \<Longrightarrow>
   run_points siridb pool rest packer count =
     Inr (fst (qp_next rest), snd (qp_next rest), packer, fst (qp_next rest), count)"
  by (simp add: run_points_def for_points.simps)

text \<open>One series of the payload, followed by anything that is not taken for a further point.\<close>

lemma while_series_one:
  assumes wf: "wf_series siridb (name, fixed, pts)"
    and len: "siridb_pool_sn_raw siridb name < length packer"
    and rest: "fixed \<longrightarrow> fst (qp_next rest) \<noteq> QP_ARRAY2 \<and> fst (qp_next rest) \<noteq> QP_ARRAY_CLOSE"
  shows "run_series siridb (enc_series (name, fixed, pts) @ rest) packer count =
         run_series siridb rest
           (packer[siridb_pool_sn_raw siridb name :=
              packer ! siridb_pool_sn_raw siridb name @ out_series (name, fixed, pts)])
           (count + of_nat (length pts))"
proof -
  let ?pool = "siridb_pool_sn_raw siridb name"
  from wf obtain ts v pts' where pts: "pts = (ts, v) # pts'" by (cases pts) auto
  from wf pts have wfp: "wf_point siridb (ts, v)" and wfps: "list_all (wf_point siridb) pts'"
    by simp_all
  let ?closer = "if fixed then [] else [QP_ARRAY_CLOSE]"
  let ?hdr = "if fixed then array_hdr (length pts) else QP_ARRAY_OPEN"
  let ?packer2 = "packer[?pool := packer ! ?pool @ [QP_RAW (name @ [CHR 0x00]), QP_ARRAY_OPEN]]"
  let ?packer3 = "packer[?pool := packer ! ?pool @
       QP_RAW (name @ [CHR 0x00]) # QP_ARRAY_OPEN # enc_points pts]"
  have enc: "enc_series (name, fixed, pts) @ rest =
      QP_RAW name # ?hdr # QP_ARRAY2 # QP_INT64 ts # v # enc_points pts' @ ?closer @ rest"
    by (simp add: pts enc_points_Cons)
  have hdr: "qp_is_array ?hdr" by (simp add: array_hdr_is_array)
  have nxt: "fst (qp_next (?closer @ rest)) \<noteq> QP_ARRAY2"
    using rest by simp
  have fp: "for_points siridb ?pool QP_ARRAY2 (QP_INT64 ts # v # enc_points pts' @ ?closer @ rest)
        ?packer2 (QP_RAW name) count =
      Inr (fst (qp_next (?closer @ rest)), snd (qp_next (?closer @ rest)), ?packer3,
           fst (qp_next (?closer @ rest)), count + of_nat (length pts))"
  proof -
    let ?p3 = "?packer2[?pool := ?packer2 ! ?pool @ enc_point (ts, v)]"
    let ?p4 = "?p3[?pool := ?p3 ! ?pool @ enc_points pts']"
    have "for_points siridb ?pool QP_ARRAY2 (QP_INT64 ts # v # enc_points pts' @ ?closer @ rest)
        ?packer2 (QP_RAW name) count =
      run_points siridb ?pool (enc_points pts' @ ?closer @ rest) ?p3 (count + 1)"
      using wfp len by (intro for_points_one) simp_all
    also have "\<dots> = run_points siridb ?pool (?closer @ rest) ?p4
        (count + 1 + of_nat (length pts'))"
      using wfps len by (intro run_points_enc) simp_all
    also have "\<dots> = Inr (fst (qp_next (?closer @ rest)), snd (qp_next (?closer @ rest)),
        ?p4, fst (qp_next (?closer @ rest)), count + 1 + of_nat (length pts'))"
      using nxt by (rule run_points_exit)
    finally show ?thesis
      using len by (simp add: pts enc_points_Cons ac_simps)
  qed
  show ?thesis
    unfolding run_series_def enc
    apply (subst while_series.simps)
    using len hdr rest fp
    apply (simp add: Let_def qp_add_raw_term_def qp_add_type_def del: qp_is_array.simps)
    done
qed

lemma route_length: "length (route siridb ps packer) = length packer"
  by (induction ps arbitrary: packer) simp_all

lemma route_nth:
  "k < length packer \<Longrightarrow>
   route siridb ps packer ! k =
     packer ! k @ concat (map out_series (filter (\<lambda>s. series_pool siridb s = k) ps))"
proof (induction ps arbitrary: packer)
  case Nil
  then show ?case by simp
next
  case (Cons s ps)
  then show ?case by (cases "series_pool siridb s = k") (simp_all add: nth_list_update)
qed

lemma npoints_Cons: "npoints ((name, fixed, pts) # ps) = length pts + npoints ps"
  by (simp add: npoints_def)

lemma enc_map_Cons: "enc_map (s # ps) = enc_series s @ enc_map ps"
  by (simp add: enc_map_def)

lemma enc_map_head:
  "ps \<noteq> [] \<Longrightarrow> is_RAW (fst (qp_next (enc_map ps @ rest)))"
  by (cases ps; cases "hd ps") (auto simp: enc_map_def)

text \<open>
  A well-formed sequence of series is consumed whole. When the last series has a fixed-arity
  header there is no closing token, and what follows must not look like a further point or
  like a closing token.
\<close>

lemma while_series_enc:
  assumes "list_all (wf_series siridb) ps"
    and "0 < pools_size siridb" and "length packer = pools_size siridb"
    and "last_open ps \<longrightarrow> fst (qp_next rest) \<noteq> QP_ARRAY2 \<and> fst (qp_next rest) \<noteq> QP_ARRAY_CLOSE"
  shows "run_series siridb (enc_map ps @ rest) packer count =
         run_series siridb rest (route siridb ps packer) (count + of_nat (npoints ps))"
  using assms
proof (induction ps arbitrary: packer count)
  case Nil
  then show ?case by (simp add: enc_map_def npoints_def)
next
  case (Cons s ps)
  obtain name fixed pts where s: "s = (name, fixed, pts)" by (cases s)
  let ?pool = "siridb_pool_sn_raw siridb name"
  let ?packer = "packer[?pool := packer ! ?pool @ out_series (name, fixed, pts)]"
  from Cons.prems s have wf: "wf_series siridb (name, fixed, pts)"
    and wfs: "list_all (wf_series siridb) ps" by simp_all
  have len: "?pool < length packer"
    using Cons.prems(2,3) by (simp add: pool_less)
  have nxt: "fixed \<longrightarrow> fst (qp_next (enc_map ps @ rest)) \<noteq> QP_ARRAY2 \<and>
      fst (qp_next (enc_map ps @ rest)) \<noteq> QP_ARRAY_CLOSE"
  proof (cases "ps = []")
    case True
    with Cons.prems(4) s show ?thesis by (simp add: enc_map_def)
  next
    case False
    from enc_map_head [OF this, of rest] show ?thesis by auto
  qed
  have lo: "last_open ps \<longrightarrow> fst (qp_next rest) \<noteq> QP_ARRAY2 \<and> fst (qp_next rest) \<noteq> QP_ARRAY_CLOSE"
    using Cons.prems(4) by (cases ps) simp_all
  have "run_series siridb (enc_map (s # ps) @ rest) packer count =
        run_series siridb (enc_series (name, fixed, pts) @ enc_map ps @ rest) packer count"
    by (simp add: enc_map_Cons s)
  also have "\<dots> = run_series siridb (enc_map ps @ rest) ?packer (count + of_nat (length pts))"
    using wf len nxt by (rule while_series_one)
  also have "\<dots> = run_series siridb rest (route siridb ps ?packer)
      (count + of_nat (length pts) + of_nat (npoints ps))"
    using wfs Cons.prems(2,3) lo by (intro Cons.IH) simp_all
  finally show ?case
    by (simp add: s npoints_Cons ac_simps)
qed

lemma sint_count: "n < 2 ^ 31 \<Longrightarrow> sint (word_of_nat n :: 32 word) = int n"
  by (simp add: signed_of_nat signed_take_bit_int_eq_self)

lemma run_series_exit:
  "\<not> is_RAW (fst (qp_next rest)) \<Longrightarrow>
   run_series siridb rest packer count = Inr (fst (qp_next rest), packer, count)"
  by (simp add: run_series_def while_series.simps)

lemma assign_pools_map:
  "siridb_insert_assign_pools siridb (QP_MAP_OPEN # unpacker) qp_obj =
     (case run_series siridb unpacker (replicate (pools_size siridb) [QP_MAP_OPEN]) 0 of
        Inl r \<Rightarrow> r
      | Inr (tp', packer', count) \<Rightarrow>
          if tp' \<noteq> QP_END \<and> tp' \<noteq> QP_MAP_CLOSE then (ERR_EXPECTING_SERIES_NAME, packer')
          else (sint count, packer'))"
  by (simp add: siridb_insert_assign_pools_def assign_by_map_def run_series_def Let_def
        qp_add_type_def map_replicate_const)

lemma route_sub_batch:
  "k < n \<Longrightarrow> route siridb ps (replicate n [QP_MAP_OPEN]) ! k = sub_batch siridb k ps"
  by (simp add: route_nth sub_batch_def)

lemma assign_pools_ok:
  assumes "list_all (wf_series siridb) ps" and "0 < pools_size siridb" and "fin_ok fin"
  shows "siridb_insert_assign_pools siridb (enc_payload ps fin) qp_obj =
         (sint (word_of_nat (npoints ps) :: 32 word),
          route siridb ps (replicate (pools_size siridb) [QP_MAP_OPEN]))"
proof -
  have fin: "fst (qp_next fin) \<noteq> QP_ARRAY2 \<and> fst (qp_next fin) \<noteq> QP_ARRAY_CLOSE"
    "\<not> is_RAW (fst (qp_next fin))"
    using assms(3) by (auto simp: fin_ok_def)
  have "run_series siridb (enc_map ps @ fin) (replicate (pools_size siridb) [QP_MAP_OPEN]) 0 =
        run_series siridb fin (route siridb ps (replicate (pools_size siridb) [QP_MAP_OPEN]))
          (0 + of_nat (npoints ps))"
    using assms(1,2) fin(1) by (intro while_series_enc) simp_all
  also have "\<dots> = Inr (fst (qp_next fin),
      route siridb ps (replicate (pools_size siridb) [QP_MAP_OPEN]), of_nat (npoints ps))"
    using fin(2) by (simp add: run_series_exit)
  finally show ?thesis
    using assms(3) by (auto simp: enc_payload_def assign_pools_map fin_ok_def)
qed

lemma count_points_append: "count_points (xs @ ys) = count_points xs + count_points ys"
  by (simp add: count_points_def)

lemma count_points_enc_points:
  "list_all (wf_point siridb) pts \<Longrightarrow> count_points (enc_points pts) = length pts"
  by (induction pts) (auto simp: enc_points_def count_points_def is_value_def)

lemma count_points_out_series:
  "wf_series siridb s \<Longrightarrow> count_points (out_series s) = length (snd (snd s))"
proof -
  obtain name fixed pts where s: "s = (name, fixed, pts)" by (cases s)
  assume "wf_series siridb s"
  with s have "count_points (enc_points pts) = length pts"
    by (simp add: count_points_enc_points [of siridb])
  then show ?thesis
    by (simp add: s count_points_def)
qed

lemma count_points_concat:
  "list_all (wf_series siridb) ps \<Longrightarrow> count_points (concat (map out_series ps)) = npoints ps"
proof (induction ps)
  case Nil
  then show ?case by (simp add: npoints_def count_points_def)
next
  case (Cons s ps)
  then have "count_points (out_series s) = length (snd (snd s))"
    and "count_points (concat (map out_series ps)) = npoints ps"
    by (simp_all add: count_points_out_series [of siridb])
  then show ?case
    by (simp add: count_points_append npoints_def)
qed

lemma count_points_sub_batch:
  assumes "list_all (wf_series siridb) ps"
  shows "count_points (sub_batch siridb k ps) =
         npoints (filter (\<lambda>s. series_pool siridb s = k) ps)"
proof -
  have "list_all (wf_series siridb) (filter (\<lambda>s. series_pool siridb s = k) ps)"
    using assms by (simp add: list_all_iff)
  then have "count_points (concat (map out_series (filter (\<lambda>s. series_pool siridb s = k) ps))) =
      npoints (filter (\<lambda>s. series_pool siridb s = k) ps)"
    by (rule count_points_concat)
  then show ?thesis by (simp add: sub_batch_def count_points_def)
qed

lemma npoints_partition:
  assumes "\<forall>s \<in> set ps. series_pool siridb s < n"
  shows "(\<Sum>k<n. npoints (filter (\<lambda>s. series_pool siridb s = k) ps)) = npoints ps"
  using assms
proof (induction ps)
  case Nil
  then show ?case by (simp add: npoints_def)
next
  case (Cons s ps)
  have split: "npoints (filter (\<lambda>s. series_pool siridb s = k) (s # ps)) =
      (if k = series_pool siridb s then length (snd (snd s)) else 0) +
      npoints (filter (\<lambda>s. series_pool siridb s = k) ps)" for k
    by (auto simp: npoints_def)
  have "(\<Sum>k<n. if k = series_pool siridb s then length (snd (snd s)) else 0) =
      length (snd (snd s))"
    using Cons.prems by (simp add: sum.delta)
  moreover have "(\<Sum>k<n. npoints (filter (\<lambda>s. series_pool siridb s = k) ps)) = npoints ps"
    using Cons by simp
  moreover have "npoints (s # ps) = length (snd (snd s)) + npoints ps"
    by (simp add: npoints_def)
  ultimately show ?case
    by (simp only: split sum.distrib)
qed

lemma enc_points_length: "length (enc_points pts) = 3 * length pts"
  by (induction pts) (auto simp: enc_points_def)

lemma enc_map_length: "3 * npoints ps \<le> length (enc_map ps)"
proof (induction ps)
  case Nil
  then show ?case by (simp add: npoints_def enc_map_def)
next
  case (Cons s ps)
  obtain name fixed pts where "s = (name, fixed, pts)" by (cases s)
  with Cons show ?case
    by (simp add: enc_map_Cons npoints_Cons enc_points_length)
qed

lemma npoints_bound:
  assumes "length (enc_payload ps fin) < 2 ^ 32"
  shows "npoints ps < 2 ^ 31"
proof -
  have "3 * npoints ps \<le> length (enc_payload ps fin)"
    using enc_map_length [of ps] by (simp add: enc_payload_def)
  with assms show ?thesis by simp
qed

text \<open>
  C1: for every well-formed map payload, classification returns a non-negative count equal
  to the number of points of the payload; the points written into the packers of all
  pools add up to this count; and the packer of each pool holds exactly the series that
  the router assigns to that pool, so every point is written into one packer, the one of
  the pool of its series name.
\<close>

theorem assign_pools_point_counts:
  assumes "list_all (wf_series siridb) ps" and "0 < pools_size siridb" and "fin_ok fin"
    and "length (enc_payload ps fin) < 2 ^ 32"
  shows "case siridb_insert_assign_pools siridb (enc_payload ps fin) qp_obj of
           (r, packer) \<Rightarrow>
             0 \<le> r \<and> r = int (npoints ps) \<and> length packer = pools_size siridb \<and>
             (\<Sum>k<pools_size siridb. count_points (packer ! k)) = npoints ps \<and>
             (\<forall>k<pools_size siridb.
                 count_points (packer ! k) =
                   npoints (filter (\<lambda>s. series_pool siridb s = k) ps) \<and>
                 packer ! k = sub_batch siridb k ps)"
proof -
  let ?packer = "route siridb ps (replicate (pools_size siridb) [QP_MAP_OPEN])"
  have res: "siridb_insert_assign_pools siridb (enc_payload ps fin) qp_obj =
      (int (npoints ps), ?packer)"
    using assign_pools_ok [OF assms(1-3)] npoints_bound [OF assms(4)]
    by (simp add: sint_count)
  have nth: "?packer ! k = sub_batch siridb k ps" if "k < pools_size siridb" for k
    using that by (rule route_sub_batch)
  have cnt: "count_points (?packer ! k) = npoints (filter (\<lambda>s. series_pool siridb s = k) ps)"
    if "k < pools_size siridb" for k
    using that assms(1) by (simp add: nth count_points_sub_batch)
  have "\<forall>s \<in> set ps. series_pool siridb s < pools_size siridb"
    using assms(2) by (auto simp: pool_less)
  then have "(\<Sum>k<pools_size siridb. npoints (filter (\<lambda>s. series_pool siridb s = k) ps)) =
      npoints ps"
    by (rule npoints_partition)
  then have total: "(\<Sum>k<pools_size siridb. count_points (?packer ! k)) = npoints ps"
    using cnt by simp
  show ?thesis
    using nth cnt total by (simp add: res route_length)
qed

lemma dec_points_enc:
  "fst (qp_next rest) \<noteq> QP_ARRAY2 \<Longrightarrow> dec_points (enc_points pts @ rest) = (pts, rest)"
proof (induction pts)
  case Nil
  then show ?case
    by (cases "(rest)" rule: dec_points.cases) (simp_all add: enc_points_def)
next
  case (Cons p pts)
  then show ?case by (cases p) (simp add: enc_points_def)
qed

lemma dec_series_Nil: "dec_series [] = []"
  by (simp add: dec_series.simps)

lemma dec_series_out:
  "dec_series (concat (map out_series ps)) = map sent_series ps"
proof (induction ps)
  case Nil
  then show ?case by (simp add: dec_series_Nil)
next
  case (Cons s ps)
  obtain name fixed pts where s: "s = (name, fixed, pts)" by (cases s)
  have "dec_points (enc_points pts @ QP_ARRAY_CLOSE # concat (map out_series ps)) =
      (pts, QP_ARRAY_CLOSE # concat (map out_series ps))"
    by (rule dec_points_enc) simp
  with Cons show ?case
    by (subst dec_series.simps) (simp add: s)
qed

lemma dec_sub_batch_eq:
  "dec_sub_batch (sub_batch siridb k ps) =
     map sent_series (filter (\<lambda>s. series_pool siridb s = k) ps)"
  by (simp add: dec_sub_batch_def sub_batch_def dec_series_out)


text \<open>
  C8: a series name that occurs several times in a payload is neither merged nor
  rejected. Classification succeeds with the count of all points, and the sub-batch of
  the pool of that name holds one entry with that key for each occurrence, in order,
  each with its own points.
\<close>

theorem assign_pools_repeated_name:
  assumes "list_all (wf_series siridb) ps" and "0 < pools_size siridb" and "fin_ok fin"
    and "length (enc_payload ps fin) < 2 ^ 32"
  shows "fst (siridb_insert_assign_pools siridb (enc_payload ps fin) qp_obj) = int (npoints ps) \<and>
         filter (\<lambda>e. fst e = name @ [CHR 0x00])
           (dec_sub_batch (snd (siridb_insert_assign_pools siridb (enc_payload ps fin) qp_obj) !
              siridb_pool_sn_raw siridb name)) =
         map sent_series (filter (\<lambda>s. fst s = name) ps)"
proof -
  let ?k = "siridb_pool_sn_raw siridb name"
  have k: "?k < pools_size siridb" using assms(2) by (rule pool_less)
  have "filter (\<lambda>e. fst e = name @ [CHR 0x00])
      (map sent_series (filter (\<lambda>s. series_pool siridb s = ?k) ps)) =
      map sent_series (filter (\<lambda>s. fst s = name) ps)"
    by (induction ps) auto
  then show ?thesis
    using assms k npoints_bound [OF assms(4)]
    by (simp add: assign_pools_ok route_sub_batch dec_sub_batch_eq sint_count)
qed

lemma example_wf: "list_all (wf_series example_siridb) example_payload"
  by (simp add: example_siridb_def example_payload_def siridb_int64_valid_ts_def is_value_def)

lemma example_pools: "0 < pools_size example_siridb"
  by (simp add: example_siridb_def)

lemma example_fin: "fin_ok [QP_MAP_CLOSE]"
  by (simp add: fin_ok_def)

lemma example_length: "length (enc_payload example_payload [QP_MAP_CLOSE]) < 2 ^ 32"
  by (simp add: enc_payload_def example_payload_def enc_map_def enc_points_def)

theorem assign_pools_point_counts_witness:
  "list_all (wf_series example_siridb) example_payload \<and> 0 < pools_size example_siridb \<and>
   fin_ok [QP_MAP_CLOSE] \<and> length (enc_payload example_payload [QP_MAP_CLOSE]) < 2 ^ 32 \<and>
   fst (siridb_insert_assign_pools example_siridb
          (enc_payload example_payload [QP_MAP_CLOSE]) QP_END) = 4 \<and>
   snd (siridb_insert_assign_pools example_siridb
          (enc_payload example_payload [QP_MAP_CLOSE]) QP_END) ! 0 =
     [QP_MAP_OPEN, QP_RAW (''bb'' @ [CHR 0x00]), QP_ARRAY_OPEN,
      QP_ARRAY2, QP_INT64 1001, QP_DOUBLE 2, QP_ARRAY2, QP_INT64 1002, QP_RAW ''x'',
      QP_ARRAY_CLOSE] \<and>
   count_points (snd (siridb_insert_assign_pools example_siridb
          (enc_payload example_payload [QP_MAP_CLOSE]) QP_END) ! 1) = 2"
proof -
  let ?r = "siridb_insert_assign_pools example_siridb
      (enc_payload example_payload [QP_MAP_CLOSE]) QP_END"
  note counts = assign_pools_point_counts [OF example_wf example_pools example_fin
      example_length, of QP_END, unfolded case_prod_unfold]
  from counts have r: "fst ?r = int (npoints example_payload)"
    by blast
  from counts have pools: "\<forall>k<pools_size example_siridb.
      count_points (snd ?r ! k) =
        npoints (filter (\<lambda>s. series_pool example_siridb s = k) example_payload) \<and>
      snd ?r ! k = sub_batch example_siridb k example_payload"
    by blast
  have "(0::nat) < pools_size example_siridb" "(1::nat) < pools_size example_siridb"
    by (simp_all add: example_siridb_def)
  with pools have "snd ?r ! 0 = sub_batch example_siridb 0 example_payload"
    and "count_points (snd ?r ! 1) =
        npoints (filter (\<lambda>s. series_pool example_siridb s = 1) example_payload)"
    by blast+
  with r have "fst ?r = 4 \<and>
      snd ?r ! 0 =
        [QP_MAP_OPEN, QP_RAW (''bb'' @ [CHR 0x00]), QP_ARRAY_OPEN,
         QP_ARRAY2, QP_INT64 1001, QP_DOUBLE 2, QP_ARRAY2, QP_INT64 1002, QP_RAW ''x'',
         QP_ARRAY_CLOSE] \<and>
      count_points (snd ?r ! 1) = 2"
    by (simp add: example_siridb_def example_payload_def sub_batch_def npoints_def
          siridb_pool_sn_raw_def enc_points_def)
  with example_wf example_pools example_fin example_length show ?thesis
    by blast
qed


theorem assign_pools_repeated_name_witness:
  "fst (siridb_insert_assign_pools example_siridb
          (enc_payload example_payload [QP_MAP_CLOSE]) QP_END) = 4 \<and>
   filter (\<lambda>e. fst e = ''a'' @ [CHR 0x00])
     (dec_sub_batch (snd (siridb_insert_assign_pools example_siridb
          (enc_payload example_payload [QP_MAP_CLOSE]) QP_END) ! 1)) =
     [(''a'' @ [CHR 0x00], [(1000, QP_INT64 1)]), (''a'' @ [CHR 0x00], [(1003, QP_INT64 4)])]"
  using assign_pools_repeated_name [OF example_wf example_pools example_fin example_length,
      of QP_END "''a''"]
  by (simp add: example_siridb_def example_payload_def siridb_pool_sn_raw_def npoints_def)

section \<open>Errors inside a series\<close>

lemma add_value_None: "\<not> is_value v \<Longrightarrow> add_value p v = None"
  by (cases v) (simp_all add: is_value_def)

lemma run_points_ARRAY2:
  "run_points siridb pool (QP_ARRAY2 # rest) packer count =
   for_points siridb pool QP_ARRAY2 rest packer QP_ARRAY2 count"
  by (simp add: run_points_def)

lemma for_points_obj:
  "for_points siridb pool QP_ARRAY2 unpacker packer qp_obj count =
   for_points siridb pool QP_ARRAY2 unpacker packer qp_obj' count"
  by (subst for_points.simps, subst (2) for_points.simps) simp

lemma for_points_no_ts:
  "\<not> is_INT64 (fst (qp_next rest)) \<Longrightarrow>
   \<exists>packer'. for_points siridb pool QP_ARRAY2 rest packer qp_obj count =
     Inl (ERR_EXPECTING_INTEGER_TS, packer')"
  by (subst for_points.simps) (simp add: Let_def)

lemma for_points_bad_ts:
  "\<not> siridb_int64_valid_ts siridb ts \<Longrightarrow>
   \<exists>packer'. for_points siridb pool QP_ARRAY2 (QP_INT64 ts # rest) packer qp_obj count =
     Inl (ERR_TIMESTAMP_OUT_OF_RANGE, packer')"
  by (subst for_points.simps) (simp add: Let_def)

lemma for_points_bad_value:
  "siridb_int64_valid_ts siridb ts \<Longrightarrow> \<not> is_value (fst (qp_next rest)) \<Longrightarrow>
   \<exists>packer'. for_points siridb pool QP_ARRAY2 (QP_INT64 ts # rest) packer qp_obj count =
     Inl (ERR_UNSUPPORTED_VALUE, packer')"
  by (subst for_points.simps) (simp add: Let_def add_value_None)

text \<open>The head of one series: name, array header, then the points.\<close>

lemma run_series_no_point:
  assumes "qp_is_array hdr" and "fst (qp_next rest) \<noteq> QP_ARRAY2"
  shows "\<exists>packer'. run_series siridb (QP_RAW name # hdr # rest) packer count =
     Inl (ERR_EXPECTING_AT_LEAST_ONE_POINT, packer')"
  unfolding run_series_def
  using assms by (subst while_series.simps) (simp add: Let_def del: qp_is_array.simps)

lemma run_series_point_error:
  assumes "qp_is_array hdr"
    and "for_points siridb (siridb_pool_sn_raw siridb name) QP_ARRAY2 rest
           (packer[siridb_pool_sn_raw siridb name :=
              packer ! siridb_pool_sn_raw siridb name @
                [QP_RAW (name @ [CHR 0x00]), QP_ARRAY_OPEN]]) qp_obj count = Inl r"
    and "siridb_pool_sn_raw siridb name < length packer"
  shows "run_series siridb (QP_RAW name # hdr # QP_ARRAY2 # rest) packer count = Inl r"
proof -
  let ?pool = "siridb_pool_sn_raw siridb name"
  let ?packer2 = "packer[?pool := packer ! ?pool @ [QP_RAW (name @ [CHR 0x00]), QP_ARRAY_OPEN]]"
  have "for_points siridb ?pool QP_ARRAY2 rest ?packer2 (QP_RAW name) count = Inl r"
    using assms(2) for_points_obj [of siridb ?pool rest ?packer2 qp_obj count "QP_RAW name"]
    by simp
  then show ?thesis
    unfolding run_series_def
    using assms(1,3)
    by (subst while_series.simps)
       (simp add: Let_def qp_add_raw_term_def qp_add_type_def del: qp_is_array.simps)
qed

text \<open>
  An error inside the points of a series, after any number of well-formed points of that
  series and any number of well-formed series before it.
\<close>

lemma assign_pools_point_error:
  assumes wf: "list_all (wf_series siridb) ps" and pools: "0 < pools_size siridb"
    and hdr: "qp_is_array hdr" and pts: "list_all (wf_point siridb) pts"
    and err: "\<And>packer count qp_obj. \<exists>packer'.
        for_points siridb (siridb_pool_sn_raw siridb name) QP_ARRAY2 rest packer qp_obj count =
          Inl (e, packer')"
  shows "fst (siridb_insert_assign_pools siridb
           (series_prefix ps name hdr pts @ QP_ARRAY2 # rest) qp_obj) = e"
proof -
  let ?pool = "siridb_pool_sn_raw siridb name"
  let ?pk0 = "replicate (pools_size siridb) [QP_MAP_OPEN] :: qp_packer_t list"
  let ?pk1 = "route siridb ps ?pk0"
  let ?c1 = "0 + word_of_nat (npoints ps) :: 32 word"
  let ?tail = "enc_points pts @ QP_ARRAY2 # rest"
  have len: "?pool < length ?pk1"
    using pools by (simp add: route_length pool_less)
  obtain u where u: "?tail = QP_ARRAY2 # u"
    by (cases pts) (auto simp: enc_points_def)
  let ?pk2 = "?pk1[?pool := ?pk1 ! ?pool @ [QP_RAW (name @ [CHR 0x00]), QP_ARRAY_OPEN]]"
  let ?pk3 = "?pk2[?pool := ?pk2 ! ?pool @ enc_points pts]"
  let ?c2 = "?c1 + of_nat (length pts)"
  obtain packer' where fp:
    "for_points siridb ?pool QP_ARRAY2 rest ?pk3 QP_ARRAY2 ?c2 = Inl (e, packer')"
    using err [of ?pk3 QP_ARRAY2 ?c2] by blast
  have "run_points siridb ?pool ?tail ?pk2 ?c1 =
      run_points siridb ?pool (QP_ARRAY2 # rest) ?pk3 ?c2"
    using pts len by (intro run_points_enc) simp_all
  also have "\<dots> = Inl (e, packer')"
    using fp by (simp only: run_points_ARRAY2)
  finally have "for_points siridb ?pool QP_ARRAY2 u ?pk2 QP_ARRAY2 ?c1 = Inl (e, packer')"
    by (simp only: u run_points_ARRAY2)
  then have one: "run_series siridb (QP_RAW name # hdr # ?tail) ?pk1 ?c1 = Inl (e, packer')"
    unfolding u using hdr len by (intro run_series_point_error) simp_all
  have "run_series siridb (enc_map ps @ QP_RAW name # hdr # ?tail) ?pk0 0 =
      run_series siridb (QP_RAW name # hdr # ?tail) ?pk1 ?c1"
    using wf pools by (intro while_series_enc) simp_all
  with one show ?thesis
    by (simp add: series_prefix_def assign_pools_map)
qed

lemma assign_pools_no_point:
  assumes wf: "list_all (wf_series siridb) ps" and pools: "0 < pools_size siridb"
    and hdr: "qp_is_array hdr" and rest: "fst (qp_next rest) \<noteq> QP_ARRAY2"
  shows "fst (siridb_insert_assign_pools siridb (series_prefix ps name hdr [] @ rest) qp_obj) =
         ERR_EXPECTING_AT_LEAST_ONE_POINT"
proof -
  let ?pk0 = "replicate (pools_size siridb) [QP_MAP_OPEN] :: qp_packer_t list"
  have "run_series siridb (enc_map ps @ QP_RAW name # hdr # rest) ?pk0 0 =
      run_series siridb (QP_RAW name # hdr # rest) (route siridb ps ?pk0)
        (0 + of_nat (npoints ps))"
    using wf pools by (intro while_series_enc) simp_all
  moreover obtain packer' where
    "run_series siridb (QP_RAW name # hdr # rest) (route siridb ps ?pk0)
        (0 + of_nat (npoints ps)) = Inl (ERR_EXPECTING_AT_LEAST_ONE_POINT, packer')"
    using run_series_no_point [OF hdr rest] by blast
  ultimately show ?thesis
    by (simp add: series_prefix_def assign_pools_map enc_points_def)
qed

text \<open>
  C3: in a map payload, after any well-formed series \<open>ps\<close>, a series entry \<open>name\<close> with an
  array header fails the whole batch
  \<^item> with \<open>EXPECTING_AT_LEAST_ONE_POINT\<close> when the first token inside its array is not an
    \<open>ARRAY2\<close> point header;
  and, after any well-formed points \<open>pts\<close> of that series, a further point fails it
  \<^item> with \<open>EXPECTING_INTEGER_TS\<close> when its first element is not an \<open>INT64\<close>,
  \<^item> with \<open>TIMESTAMP_OUT_OF_RANGE\<close> when the time-stamp is outside \<open>[ts_min, ts_max]\<close>,
  \<^item> with \<open>UNSUPPORTED_VALUE\<close> when the value token is not \<open>INT64\<close>, \<open>DOUBLE\<close> or \<open>RAW\<close>.
\<close>

theorem assign_by_map_point_errors:
  assumes "list_all (wf_series siridb) ps" and "0 < pools_size siridb"
    and "qp_is_array hdr" and "list_all (wf_point siridb) pts"
  shows "(fst (qp_next rest) \<noteq> QP_ARRAY2 \<longrightarrow>
            fst (siridb_insert_assign_pools siridb (series_prefix ps name hdr [] @ rest) qp_obj) =
              ERR_EXPECTING_AT_LEAST_ONE_POINT) \<and>
         (\<not> is_INT64 (fst (qp_next rest)) \<longrightarrow>
            fst (siridb_insert_assign_pools siridb
                   (series_prefix ps name hdr pts @ QP_ARRAY2 # rest) qp_obj) =
              ERR_EXPECTING_INTEGER_TS) \<and>
         (\<not> siridb_int64_valid_ts siridb ts \<longrightarrow>
            fst (siridb_insert_assign_pools siridb
                   (series_prefix ps name hdr pts @ QP_ARRAY2 # QP_INT64 ts # rest) qp_obj) =
              ERR_TIMESTAMP_OUT_OF_RANGE) \<and>
         (siridb_int64_valid_ts siridb ts \<and> \<not> is_value (fst (qp_next rest)) \<longrightarrow>
            fst (siridb_insert_assign_pools siridb
                   (series_prefix ps name hdr pts @ QP_ARRAY2 # QP_INT64 ts # rest) qp_obj) =
              ERR_UNSUPPORTED_VALUE)"
proof (intro conjI impI)
  assume "fst (qp_next rest) \<noteq> QP_ARRAY2"
  with assms(1-3) show
    "fst (siridb_insert_assign_pools siridb (series_prefix ps name hdr [] @ rest) qp_obj) =
       ERR_EXPECTING_AT_LEAST_ONE_POINT"
    by (rule assign_pools_no_point)
next
  assume "\<not> is_INT64 (fst (qp_next rest))"
  then show "fst (siridb_insert_assign_pools siridb
      (series_prefix ps name hdr pts @ QP_ARRAY2 # rest) qp_obj) = ERR_EXPECTING_INTEGER_TS"
    using assms by (intro assign_pools_point_error for_points_no_ts)
next
  assume "\<not> siridb_int64_valid_ts siridb ts"
  then show "fst (siridb_insert_assign_pools siridb
      (series_prefix ps name hdr pts @ QP_ARRAY2 # QP_INT64 ts # rest) qp_obj) =
      ERR_TIMESTAMP_OUT_OF_RANGE"
    using assms by (intro assign_pools_point_error for_points_bad_ts)
next
  assume "siridb_int64_valid_ts siridb ts \<and> \<not> is_value (fst (qp_next rest))"
  then show "fst (siridb_insert_assign_pools siridb
      (series_prefix ps name hdr pts @ QP_ARRAY2 # QP_INT64 ts # rest) qp_obj) =
      ERR_UNSUPPORTED_VALUE"
    using assms by (intro assign_pools_point_error for_points_bad_value) simp_all
qed

theorem assign_by_map_point_errors_witness:
  "list_all (wf_series example_siridb) example_payload \<and> 0 < pools_size example_siridb \<and>
   qp_is_array QP_ARRAY_OPEN \<and> list_all (wf_point example_siridb) [(1000, QP_INT64 1)] \<and>
   fst (siridb_insert_assign_pools example_siridb
          (QP_MAP_OPEN # enc_map example_payload @
             [QP_RAW ''x'', QP_ARRAY_OPEN, QP_ARRAY_CLOSE, QP_MAP_CLOSE]) QP_END) = - 1 \<and>
   fst (siridb_insert_assign_pools example_siridb
          (QP_MAP_OPEN # enc_map example_payload @
             [QP_RAW ''x'', QP_ARRAY_OPEN, QP_ARRAY2, QP_INT64 1000, QP_INT64 1,
              QP_ARRAY2, QP_RAW ''t'', QP_INT64 1]) QP_END) = - 4 \<and>
   fst (siridb_insert_assign_pools example_siridb
          (QP_MAP_OPEN # enc_map example_payload @
             [QP_RAW ''x'', QP_ARRAY_OPEN, QP_ARRAY2, QP_INT64 1000, QP_INT64 1,
              QP_ARRAY2, QP_INT64 (- 5), QP_INT64 1]) QP_END) = - 3 \<and>
   fst (siridb_insert_assign_pools example_siridb
          (QP_MAP_OPEN # enc_map example_payload @
             [QP_RAW ''x'', QP_ARRAY_OPEN, QP_ARRAY2, QP_INT64 1000, QP_INT64 1,
              QP_ARRAY2, QP_INT64 1001, QP_ARRAY_CLOSE]) QP_END) = - 2"
proof -
  have hdr: "qp_is_array QP_ARRAY_OPEN" by simp
  have pts: "list_all (wf_point example_siridb) [(1000, QP_INT64 1)]"
    by (simp add: example_siridb_def siridb_int64_valid_ts_def is_value_def)
  have bad: "\<not> siridb_int64_valid_ts example_siridb (- 5)"
    by (simp add: example_siridb_def siridb_int64_valid_ts_def)
  have good: "siridb_int64_valid_ts example_siridb 1001"
    by (simp add: example_siridb_def siridb_int64_valid_ts_def)
  note e1 = assign_by_map_point_errors [OF example_wf example_pools hdr pts,
      where rest = "[QP_ARRAY_CLOSE, QP_MAP_CLOSE]" and name = "''x''" and qp_obj = QP_END]
  note e2 = assign_by_map_point_errors [OF example_wf example_pools hdr pts,
      where rest = "[QP_RAW ''t'', QP_INT64 1]" and name = "''x''" and qp_obj = QP_END]
  note e3 = assign_by_map_point_errors [OF example_wf example_pools hdr pts,
      where rest = "[QP_INT64 1]" and ts = "- 5" and name = "''x''" and qp_obj = QP_END]
  note e4 = assign_by_map_point_errors [OF example_wf example_pools hdr pts,
      where rest = "[QP_ARRAY_CLOSE]" and ts = 1001 and name = "''x''" and qp_obj = QP_END]
  from e1 have r1: "fst (siridb_insert_assign_pools example_siridb
      (series_prefix example_payload ''x'' QP_ARRAY_OPEN [] @ [QP_ARRAY_CLOSE, QP_MAP_CLOSE])
      QP_END) = ERR_EXPECTING_AT_LEAST_ONE_POINT"
    by simp
  from e2 have r2: "fst (siridb_insert_assign_pools example_siridb
      (series_prefix example_payload ''x'' QP_ARRAY_OPEN [(1000, QP_INT64 1)] @
         QP_ARRAY2 # [QP_RAW ''t'', QP_INT64 1]) QP_END) = ERR_EXPECTING_INTEGER_TS"
    by simp
  from e3 bad have r3: "fst (siridb_insert_assign_pools example_siridb
      (series_prefix example_payload ''x'' QP_ARRAY_OPEN [(1000, QP_INT64 1)] @
         QP_ARRAY2 # QP_INT64 (- 5) # [QP_INT64 1]) QP_END) = ERR_TIMESTAMP_OUT_OF_RANGE"
    by blast
  from e4 good have r4: "fst (siridb_insert_assign_pools example_siridb
      (series_prefix example_payload ''x'' QP_ARRAY_OPEN [(1000, QP_INT64 1)] @
         QP_ARRAY2 # QP_INT64 1001 # [QP_ARRAY_CLOSE]) QP_END) = ERR_UNSUPPORTED_VALUE"
    by (simp add: is_value_def)
  from r1 r2 r3 r4 have "fst (siridb_insert_assign_pools example_siridb
          (QP_MAP_OPEN # enc_map example_payload @
             [QP_RAW ''x'', QP_ARRAY_OPEN, QP_ARRAY_CLOSE, QP_MAP_CLOSE]) QP_END) = - 1 \<and>
   fst (siridb_insert_assign_pools example_siridb
          (QP_MAP_OPEN # enc_map example_payload @
             [QP_RAW ''x'', QP_ARRAY_OPEN, QP_ARRAY2, QP_INT64 1000, QP_INT64 1,
              QP_ARRAY2, QP_RAW ''t'', QP_INT64 1]) QP_END) = - 4 \<and>
   fst (siridb_insert_assign_pools example_siridb
          (QP_MAP_OPEN # enc_map example_payload @
             [QP_RAW ''x'', QP_ARRAY_OPEN, QP_ARRAY2, QP_INT64 1000, QP_INT64 1,
              QP_ARRAY2, QP_INT64 (- 5), QP_INT64 1]) QP_END) = - 3 \<and>
   fst (siridb_insert_assign_pools example_siridb
          (QP_MAP_OPEN # enc_map example_payload @
             [QP_RAW ''x'', QP_ARRAY_OPEN, QP_ARRAY2, QP_INT64 1000, QP_INT64 1,
              QP_ARRAY2, QP_INT64 1001, QP_ARRAY_CLOSE]) QP_END) = - 2"
    by (simp add: series_prefix_def enc_points_def ERR_defs)
  with example_wf example_pools hdr pts show ?thesis
    by blast
qed

section \<open>The classifier against the scan\<close>





lemma qp_next_Cons: "fst (qp_next u) \<noteq> QP_END \<Longrightarrow> u = fst (qp_next u) # snd (qp_next u)"
  by (cases u) simp_all



















lemma example_npoints: "npoints example_payload = 4"
  by (simp add: npoints_def example_payload_def)


section \<open>The calls of the dispatcher\<close>

lemma local_series_registry_only:
  "list_all is_registry_call (snd (local_series reg tp qp_series_name unpacker))"
proof (induction reg tp qp_series_name unpacker rule: local_series.induct)
  case (1 reg tp qp_series_name unpacker)
  show ?case
  proof (cases "is_RAW tp")
    case False
    then show ?thesis by (subst local_series.simps) simp
  next
    case True
    with "1.IH" show ?thesis
      by (subst local_series.simps) (simp add: Let_def)
  qed
qed

lemma for_packers_registry_only:
  "list_all is_registry_call (snd (for_packers pool packer ns reg))"
  by (induction ns arbitrary: reg)
     (simp_all add: Let_def local_pool_def local_series_registry_only)

lemma for_packers_append:
  "for_packers pool packer (xs @ ys) reg =
     (fst (for_packers pool packer ys (fst (for_packers pool packer xs reg))),
      snd (for_packers pool packer xs reg) @
      snd (for_packers pool packer ys (fst (for_packers pool packer xs reg))))"
  by (induction xs arbitrary: reg) (simp_all add: Let_def)

lemma for_packers_upt:
  "for_packers pool packer [0 ..< m] reg =
     (if pool < m then local_pool reg (packer ! pool) else (reg, []))"
proof (induction m)
  case 0
  then show ?case by simp
next
  case (Suc m)
  then show ?case
    by (auto simp: for_packers_append Let_def)
qed

lemma rest_points_enc:
  "rest_points (enc_points pts @ QP_ARRAY_CLOSE # rest) = (QP_ARRAY_CLOSE, rest)"
proof (induction pts)
  case Nil
  then show ?case by (subst rest_points.simps) (simp add: enc_points_def)
next
  case (Cons p pts)
  obtain ts v where "p = (ts, v)" by (cases p)
  with Cons show ?case
    by (subst rest_points.simps) (simp add: enc_points_Cons)
qed

lemma local_series_out:
  assumes "\<forall>s \<in> set ss. snd (snd s) \<noteq> []"
  shows "local_series reg (fst (qp_next (concat (map out_series ss))))
           (fst (qp_next (concat (map out_series ss))))
           (snd (qp_next (concat (map out_series ss)))) =
         (registry_after reg ss, registry_calls reg ss)"
  using assms
proof (induction ss arbitrary: reg)
  case Nil
  then show ?case by (subst local_series.simps) simp
next
  case (Cons s ss)
  obtain name fixed pts where s: "s = (name, fixed, pts)" by (cases s)
  with Cons.prems obtain ts v pts' where pts: "pts = (ts, v) # pts'"
    by (cases pts) auto
  let ?rest = "concat (map out_series ss)"
  let ?k = "c_str (name @ [CHR 0x00])"
  let ?t = "siridb_qp_map_tp v"
  have key: "series_key s = ?k"
    by (simp add: series_key_def s)
  have tp: "first_value_tp s = ?t"
    by (simp add: first_value_tp_def s pts)
  have ih: "local_series reg' (fst (qp_next ?rest)) (fst (qp_next ?rest)) (snd (qp_next ?rest)) =
      (registry_after reg' ss, registry_calls reg' ss)" for reg'
    using Cons.prems by (intro Cons.IH) simp
  have toks: "concat (map out_series (s # ss)) =
      QP_RAW (name @ [CHR 0x00]) # QP_ARRAY_OPEN # QP_ARRAY2 # QP_INT64 ts # v #
      enc_points pts' @ QP_ARRAY_CLOSE # ?rest"
    by (simp add: s pts enc_points_Cons)
  show ?case
  proof (cases "reg ?k = None")
    case True
    then show ?thesis
      unfolding toks
      by (subst local_series.simps)
         (simp add: Let_def rest_points_enc ih key tp)
  next
    case False
    then show ?thesis
      unfolding toks
      by (subst local_series.simps)
         (auto simp add: Let_def rest_points_enc ih key tp)
  qed
qed

lemma registry_calls_lookups:
  "filter is_lookup (registry_calls reg ss) = map (\<lambda>s. Ct_get_sure (series_key s)) ss"
  by (induction ss arbitrary: reg) simp_all

lemma registry_calls_created:
  "Siridb_create_series k t \<in> set (registry_calls reg ss) \<longleftrightarrow>
   reg k = None \<and> (\<exists>s. find (\<lambda>s. series_key s = k) ss = Some s \<and> t = first_value_tp s)"
proof (induction ss arbitrary: reg)
  case Nil
  then show ?case by simp
next
  case (Cons s ss)
  show ?case
    by (cases "series_key s = k") (auto simp: Cons.IH)
qed

lemma registry_after_lookup:
  "registry_after reg ss k =
     (case reg k of
        Some t \<Rightarrow> Some t
      | None \<Rightarrow> map_option first_value_tp (find (\<lambda>s. series_key s = k) ss))"
proof (induction ss arbitrary: reg)
  case Nil
  then show ?case by (simp split: option.splits)
next
  case (Cons s ss)
  show ?case
    by (cases "series_key s = k") (auto simp: Cons.IH split: option.splits)
qed

lemma registry_calls_registry_only: "list_all is_registry_call (registry_calls reg ss)"
  by (induction ss arbitrary: reg) simp_all

lemma local_pool_sub_batch:
  assumes "list_all (wf_series siridb) ps"
  shows "local_pool reg (sub_batch siridb k ps) =
         (registry_after reg (filter (\<lambda>s. series_pool siridb s = k) ps),
          registry_calls reg (filter (\<lambda>s. series_pool siridb s = k) ps))"
proof -
  have "\<forall>s \<in> set (filter (\<lambda>s. series_pool siridb s = k) ps). snd (snd s) \<noteq> []"
    using assms by (auto simp: list_all_iff)
  from local_series_out [OF this, of reg] show ?thesis
    by (simp add: local_pool_def sub_batch_def Let_def)
qed

lemma sint_size: "n < 2 ^ 31 \<Longrightarrow> sint (word_of_nat n :: 64 word) = int n"
  by (simp add: signed_of_nat signed_take_bit_int_eq_self)

lemma fmt_zd_nat: "fmt_zd (int n) = fmt_nat n"
  by (simp add: fmt_zd_def)

lemma insert_job_ok:
  assumes "list_all (wf_series siridb) ps" and "0 < pools_size siridb" and "fin_ok fin"
    and "length (enc_payload ps fin) < 2 ^ 32"
    and "server_pool siridb < pools_size siridb"
  shows "insert_job siridb (enc_payload ps fin) pid client =
         (siridb\<lparr>series := registry_after (series siridb)
                   (filter (\<lambda>s. series_pool siridb s = server_pool siridb) ps)\<rparr>,
          registry_calls (series siridb)
            (filter (\<lambda>s. series_pool siridb s = server_pool siridb) ps) @
          [Sirinet_send_pkg (Client_handle client)
             (success_pkg pid (fmt_nat (npoints ps))),
           Uv_close])"
proof -
  let ?packer = "route siridb ps (replicate (pools_size siridb) [QP_MAP_OPEN])"
  have "take (pools_size siridb) ?packer ! server_pool siridb =
      sub_batch siridb (server_pool siridb) ps"
    using assms(5) by (simp add: route_length route_sub_batch)
  then show ?thesis
    using assms npoints_bound [OF assms(4)]
    by (simp add: insert_job_def assign_pools_ok sint_count sint_size fmt_zd_nat
          siridb_insert_points_def
          send_points_to_pools_def for_packers_upt local_pool_sub_batch Let_def
          success_pkg_def qp_add_fmt_inserted_def qp_add_raw_def qp_add_type_def)
qed

text \<open>
  C5, as the code has it: on the local-pool path the dispatcher performs one registry
  get-or-create lookup for every series of the local sub-batch, in order, and creates a
  series that the registry did not hold with the value type of the first point of its first
  entry; the registry afterwards holds exactly the old and the created series. The
  remaining points are decoded, and no call of a storage append interface is made.
\<close>

theorem local_pool_registry_calls:
  assumes "list_all (wf_series siridb) ps" and "0 < pools_size siridb" and "fin_ok fin"
    and "length (enc_payload ps fin) < 2 ^ 32"
    and "server_pool siridb < pools_size siridb"
  shows "filter is_lookup (snd (insert_job siridb (enc_payload ps fin) pid client)) =
           map (\<lambda>s. Ct_get_sure (series_key s))
             (filter (\<lambda>s. series_pool siridb s = server_pool siridb) ps) \<and>
         (\<forall>k t. Siridb_create_series k t \<in>
                  set (snd (insert_job siridb (enc_payload ps fin) pid client)) \<longleftrightarrow>
                series siridb k = None \<and>
                (\<exists>s. find (\<lambda>s. series_key s = k)
                       (filter (\<lambda>s. series_pool siridb s = server_pool siridb) ps) = Some s \<and>
                     t = first_value_tp s)) \<and>
         (\<forall>k. series (fst (insert_job siridb (enc_payload ps fin) pid client)) k =
                (case series siridb k of
                   Some t \<Rightarrow> Some t
                 | None \<Rightarrow>
                     map_option first_value_tp
                       (find (\<lambda>s. series_key s = k)
                          (filter (\<lambda>s. series_pool siridb s = server_pool siridb) ps)))) \<and>
         (\<forall>name ts v. Storage_append name ts v \<notin>
                  set (snd (insert_job siridb (enc_payload ps fin) pid client)))"
proof -
  let ?local = "filter (\<lambda>s. series_pool siridb s = server_pool siridb) ps"
  note job = insert_job_ok [OF assms, of pid client]
  have "\<forall>c \<in> set (registry_calls (series siridb) ?local). is_registry_call c"
    using registry_calls_registry_only [of "series siridb" ?local] by (simp add: list_all_iff)
  then have no_append: "Storage_append name ts v \<notin> set (registry_calls (series siridb) ?local)"
    for name ts v
    by fastforce
  show ?thesis
    unfolding job
    by (simp add: registry_calls_lookups registry_calls_created registry_after_lookup no_append)
qed

lemma example_server_pool: "server_pool example_siridb < pools_size example_siridb"
  by (simp add: example_siridb_def)

lemma fmt_nat_4: "fmt_nat 4 = ''4''"
  by (subst fmt_nat.simps) (simp add: decimal_digits_def)

lemma example_job:
  "insert_job example_siridb (enc_payload example_payload [QP_MAP_CLOSE]) 1 7 =
     (example_siridb\<lparr>series := [''bb'' \<mapsto> SIRIDB_SERIES_TP_DOUBLE]\<rparr>,
      [Ct_get_sure ''bb'', Siridb_create_series ''bb'' SIRIDB_SERIES_TP_DOUBLE,
       Sirinet_send_pkg (Client_handle 7) (success_pkg 1 ''4''), Uv_close])"
  by (simp add: insert_job_ok [OF example_wf example_pools example_fin example_length
        example_server_pool] example_npoints fmt_nat_4)
     (simp add: example_siridb_def example_payload_def siridb_pool_sn_raw_def series_key_def
        c_str_def first_value_tp_def)

theorem local_pool_no_append_counterexample:
  "series_pool example_siridb (''bb'', True, [(1001, QP_DOUBLE 2), (1002, QP_RAW ''x'')]) =
     server_pool example_siridb \<and>
   Storage_append ''bb'' 1001 (QP_DOUBLE 2) \<notin>
     set (snd (insert_job example_siridb (enc_payload example_payload [QP_MAP_CLOSE]) 1 7)) \<and>
   Storage_append (''bb'' @ [CHR 0x00]) 1001 (QP_DOUBLE 2) \<notin>
     set (snd (insert_job example_siridb (enc_payload example_payload [QP_MAP_CLOSE]) 1 7))"
  by (simp add: example_job) (simp add: example_siridb_def siridb_pool_sn_raw_def)

theorem local_pool_registry_calls_witness:
  "list_all (wf_series example_siridb) example_payload \<and> 0 < pools_size example_siridb \<and>
   fin_ok [QP_MAP_CLOSE] \<and> length (enc_payload example_payload [QP_MAP_CLOSE]) < 2 ^ 32 \<and>
   server_pool example_siridb < pools_size example_siridb \<and>
   filter is_lookup
     (snd (insert_job example_siridb (enc_payload example_payload [QP_MAP_CLOSE]) 1 7)) =
     [Ct_get_sure ''bb''] \<and>
   series (fst (insert_job example_siridb (enc_payload example_payload [QP_MAP_CLOSE]) 1 7))
     ''bb'' = Some SIRIDB_SERIES_TP_DOUBLE"
proof -
  let ?job = "insert_job example_siridb (enc_payload example_payload [QP_MAP_CLOSE]) 1 7"
  let ?local = "filter (\<lambda>s. series_pool example_siridb s = server_pool example_siridb)
      example_payload"
  note calls = local_pool_registry_calls [OF example_wf example_pools example_fin
      example_length example_server_pool, of 1 7]
  have local: "?local = [(''bb'', True, [(1001, QP_DOUBLE 2), (1002, QP_RAW ''x'')])]"
    by (simp add: example_siridb_def example_payload_def siridb_pool_sn_raw_def)
  have key: "series_key (''bb'', True, [(1001, QP_DOUBLE 2), (1002, QP_RAW ''x'')]) = ''bb''"
    by (simp add: series_key_def c_str_def)
  from calls have "filter is_lookup (snd ?job) = map (\<lambda>s. Ct_get_sure (series_key s)) ?local"
    by blast
  then have lookups: "filter is_lookup (snd ?job) = [Ct_get_sure ''bb'']"
    by (simp only: local key list.map)
  from calls have "series (fst ?job) ''bb'' =
      (case series example_siridb ''bb'' of
         Some t \<Rightarrow> Some t
       | None \<Rightarrow> map_option first_value_tp (find (\<lambda>s. series_key s = ''bb'') ?local))"
    by blast
  then have reg: "series (fst ?job) ''bb'' = Some SIRIDB_SERIES_TP_DOUBLE"
    by (simp only: local) (simp add: key first_value_tp_def example_siridb_def)
  from example_wf example_pools example_fin example_length example_server_pool lookups reg
  show ?thesis by blast
qed

lemma send_points_sends:
  "filter is_send (snd (send_points_to_pools siridb ins)) =
     [Sirinet_send_pkg (Client_handle (insert_client ins))
        (success_pkg (insert_pid ins) (fmt_zd (sint (insert_size ins))))]"
proof -
  let ?r = "for_packers (server_pool siridb) (insert_packer ins) [0 ..< packer_size ins]
      (series siridb)"
  have "\<forall>c \<in> set (snd ?r). is_registry_call c"
    using for_packers_registry_only [of "server_pool siridb" "insert_packer ins"
        "[0 ..< packer_size ins]" "series siridb"]
    by (simp add: list_all_iff)
  then have "\<forall>c \<in> set (snd ?r). \<not> is_send c"
    by (metis is_registry_call.simps(4) is_send.elims(2))
  then have "filter is_send (snd ?r) = []"
    by (simp add: filter_empty_conv)
  then show ?thesis
    by (simp add: send_points_to_pools_def Let_def success_pkg_def qp_add_fmt_inserted_def
          qp_add_raw_def qp_add_type_def)
qed

text \<open>
  C6, as the code has it: the dispatcher sends no package to the peer of any pool, so no
  sub-batch, empty or not, is transmitted; only the sub-batch of the local pool is
  processed, in place. Each pool's sub-batch contains only series that the router
  assigns to that pool.
\<close>

theorem no_sub_batch_transmitted:
  "(\<forall>k pkg. Sirinet_send_pkg (Pool_peer k) pkg \<notin> set (snd (send_points_to_pools siridb ins))) \<and>
   (list_all (wf_series siridb) ps \<and> 0 < pools_size siridb \<and> fin_ok fin \<and>
    k < pools_size siridb \<longrightarrow>
      (\<forall>e \<in> set (dec_sub_batch
                   (snd (siridb_insert_assign_pools siridb (enc_payload ps fin) qp_obj) ! k)).
         \<exists>s \<in> set ps. e = sent_series s \<and> series_pool siridb s = k))"
proof (intro conjI allI impI)
  fix k pkg
  show "Sirinet_send_pkg (Pool_peer k) pkg \<notin> set (snd (send_points_to_pools siridb ins))"
  proof
    assume "Sirinet_send_pkg (Pool_peer k) pkg \<in> set (snd (send_points_to_pools siridb ins))"
    then have "Sirinet_send_pkg (Pool_peer k) pkg \<in>
        set (filter is_send (snd (send_points_to_pools siridb ins)))"
      by simp
    then show False
      by (simp only: send_points_sends) simp
  qed
next
  assume "list_all (wf_series siridb) ps \<and> 0 < pools_size siridb \<and> fin_ok fin \<and>
    k < pools_size siridb"
  then have "dec_sub_batch
      (snd (siridb_insert_assign_pools siridb (enc_payload ps fin) qp_obj) ! k) =
      map sent_series (filter (\<lambda>s. series_pool siridb s = k) ps)"
    by (simp add: assign_pools_ok route_sub_batch dec_sub_batch_eq)
  then show "\<forall>e \<in> set (dec_sub_batch
      (snd (siridb_insert_assign_pools siridb (enc_payload ps fin) qp_obj) ! k)).
      \<exists>s \<in> set ps. e = sent_series s \<and> series_pool siridb s = k"
    by (simp only: set_map set_filter) blast
qed

theorem no_sub_batch_transmitted_counterexample:
  "server_pool example_siridb \<noteq> 1 \<and>
   dec_sub_batch
     (snd (siridb_insert_assign_pools example_siridb
        (enc_payload example_payload [QP_MAP_CLOSE]) QP_END) ! 1) =
     [(''a'' @ [CHR 0x00], [(1000, QP_INT64 1)]), (''a'' @ [CHR 0x00], [(1003, QP_INT64 4)])] \<and>
   snd (insert_job example_siridb (enc_payload example_payload [QP_MAP_CLOSE]) 1 7) =
     [Ct_get_sure ''bb'', Siridb_create_series ''bb'' SIRIDB_SERIES_TP_DOUBLE,
      Sirinet_send_pkg (Client_handle 7) (success_pkg 1 ''4''), Uv_close]"
proof -
  have "dec_sub_batch
     (snd (siridb_insert_assign_pools example_siridb
        (enc_payload example_payload [QP_MAP_CLOSE]) QP_END) ! 1) =
     map sent_series (filter (\<lambda>s. series_pool example_siridb s = 1) example_payload)"
    using example_wf example_pools example_fin
    by (simp add: assign_pools_ok route_sub_batch dec_sub_batch_eq example_siridb_def)
  then show ?thesis
    by (simp add: example_job)
       (simp add: example_siridb_def example_payload_def siridb_pool_sn_raw_def)
qed

theorem no_sub_batch_transmitted_witness:
  "list_all (wf_series example_siridb) example_payload \<and> 0 < pools_size example_siridb \<and>
   fin_ok [QP_MAP_CLOSE] \<and> (1::nat) < pools_size example_siridb \<and>
   (''a'' @ [CHR 0x00], [(1000, QP_INT64 1)]) \<in>
     set (dec_sub_batch
       (snd (siridb_insert_assign_pools example_siridb
          (enc_payload example_payload [QP_MAP_CLOSE]) QP_END) ! 1)) \<and>
   siridb_pool_sn_raw example_siridb ''a'' = 1 \<and>
   Sirinet_send_pkg (Pool_peer 1) (success_pkg 1 ''4'') \<notin>
     set (snd (send_points_to_pools example_siridb
       \<lparr>insert_pid = 1, insert_client = 7, insert_size = 4, packer_size = 2,
        insert_packer = [[QP_MAP_OPEN], [QP_MAP_OPEN]]\<rparr>))"
proof -
  let ?sub = "dec_sub_batch
      (snd (siridb_insert_assign_pools example_siridb
         (enc_payload example_payload [QP_MAP_CLOSE]) QP_END) ! 1)"
  let ?e = "(''a'' @ [CHR 0x00], [(1000 :: 64 word, QP_INT64 1)])"
  have one: "(1::nat) < pools_size example_siridb"
    by (simp add: example_siridb_def)
  note t = no_sub_batch_transmitted [of example_siridb
      "\<lparr>insert_pid = 1, insert_client = 7, insert_size = 4, packer_size = 2,
        insert_packer = [[QP_MAP_OPEN], [QP_MAP_OPEN]]\<rparr>" example_payload "[QP_MAP_CLOSE]" 1
      QP_END]
  have "?sub = map sent_series (filter (\<lambda>s. series_pool example_siridb s = 1) example_payload)"
    using example_wf example_pools example_fin one
    by (simp add: assign_pools_ok route_sub_batch dec_sub_batch_eq)
  then have mem: "?e \<in> set ?sub"
    by (simp add: example_siridb_def example_payload_def siridb_pool_sn_raw_def)
  from t example_wf example_pools example_fin one
  have routed: "\<forall>e \<in> set ?sub.
      \<exists>s \<in> set example_payload. e = sent_series s \<and> series_pool example_siridb s = 1"
    and unsent: "Sirinet_send_pkg (Pool_peer 1) (success_pkg 1 ''4'') \<notin>
     set (snd (send_points_to_pools example_siridb
       \<lparr>insert_pid = 1, insert_client = 7, insert_size = 4, packer_size = 2,
        insert_packer = [[QP_MAP_OPEN], [QP_MAP_OPEN]]\<rparr>))"
    by blast+
  from routed mem obtain s where s: "?e = sent_series s" "series_pool example_siridb s = 1"
    by blast
  obtain name fixed pts where "s = (name, fixed, pts)"
    by (cases s)
  with s have pool: "siridb_pool_sn_raw example_siridb ''a'' = 1"
    by simp
  from example_wf example_pools example_fin one mem pool unsent show ?thesis
    by blast
qed



section \<open>The time-out flag of the admin client\<close>

lemma timeout_bit_set: "(flags OR CLIENT_FLAGS_TIMEOUT) AND CLIENT_FLAGS_TIMEOUT \<noteq> 0"
  by (simp add: CLIENT_FLAGS_TIMEOUT_def word_ao_absorbs)

lemma client_step_keeps_flags:
  "adm_flags (fst (client_step status_msgs cproto adm_client ev)) AND CLIENT_FLAGS_TIMEOUT \<noteq> 0"
  if "adm_flags adm_client AND CLIENT_FLAGS_TIMEOUT \<noteq> 0"
proof (cases ev)
  case (On_connect status)
  with that show ?thesis
    by (simp add: CLIENT_on_connect_def CLIENT_send_pkg_def Let_def)
next
  case (Write_cb status)
  with that show ?thesis
    by (simp add: CLIENT_write_cb_def)
next
  case (On_data pkg)
  with that show ?thesis
    by (simp add: CLIENT_on_data_def)
next
  case Timer_expired
  then show ?thesis
    by (simp add: CLIENT_request_timeout_def Let_def timeout_bit_set CLIENT_FLAGS_TIMEOUT_def)
qed

lemma client_run_after_timeout:
  assumes "adm_flags adm_client AND CLIENT_FLAGS_TIMEOUT \<noteq> 0"
    and "(ev, adm_client', calls) \<in> set (client_run status_msgs cproto adm_client evs)"
  shows "adm_flags adm_client' AND CLIENT_FLAGS_TIMEOUT \<noteq> 0 \<and>
         (\<forall>pkg. ev = On_data pkg \<longrightarrow>
            calls = [Log_debug, Log_error Response_timed_out_earlier])"
  using assms
proof (induction evs arbitrary: adm_client)
  case Nil
  then show ?case by simp
next
  case (Cons e evs)
  from Cons.prems(2) consider
    (head) "(ev, adm_client', calls) = (e, client_step status_msgs cproto adm_client e)"
  | (tail) "(ev, adm_client', calls) \<in>
      set (client_run status_msgs cproto (fst (client_step status_msgs cproto adm_client e)) evs)"
    by auto
  then show ?case
  proof cases
    case head
    then have ev: "ev = e" and r: "client_step status_msgs cproto adm_client e = (adm_client', calls)"
      by simp_all
    have "adm_flags adm_client' AND CLIENT_FLAGS_TIMEOUT \<noteq> 0"
      using client_step_keeps_flags [OF Cons.prems(1), of status_msgs cproto e] r by simp
    moreover have "calls = [Log_debug, Log_error Response_timed_out_earlier]"
      if "ev = On_data pkg" for pkg
      using that ev r Cons.prems(1) by (simp add: CLIENT_on_data_def)
    ultimately show ?thesis by blast
  next
    case tail
    have "adm_flags (fst (client_step status_msgs cproto adm_client e)) AND
        CLIENT_FLAGS_TIMEOUT \<noteq> 0"
      using Cons.prems(1) by (rule client_step_keeps_flags)
    from Cons.IH [OF this tail] show ?thesis .
  qed
qed

lemma client_run_events: "map fst (client_run status_msgs cproto adm_client evs) = evs"
  by (induction evs arbitrary: adm_client) simp_all

lemma client_run_length: "length (client_run status_msgs cproto adm_client evs) = length evs"
  by (induction evs arbitrary: adm_client) simp_all

lemma client_run_append:
  "client_run status_msgs cproto adm_client (evs1 @ ev # evs2) =
     client_run status_msgs cproto adm_client evs1 @
     client_run status_msgs cproto
       (fold (\<lambda>ev adm. fst (client_step status_msgs cproto adm ev)) evs1 adm_client)
       (ev # evs2)"
  by (induction evs1 arbitrary: adm_client) simp_all

text \<open>
  C9: the request timer is started with 15000 ms for every package sent. Once it fires for
  a request, after any earlier events, the time-out flag is set in every later state of
  the client, and every package that arrives later is only logged as a response that
  timed out earlier: the timer is not stopped and no response handler runs.
\<close>

theorem late_replies_dropped:
  "CLIENT_REQUEST_TIMEOUT = 15000 \<and>
   snd (CLIENT_send_pkg adm_client req) =
     [Uv_timer_start 15000, Uv_write (req\<lparr>req_checkbit := req_tp req XOR 255\<rparr>)] \<and>
   (\<forall>(ev, adm_client', calls) \<in>
        set (drop (length evs1)
               (client_run status_msgs cproto adm_client (evs1 @ Timer_expired # evs2))).
      adm_flags adm_client' AND CLIENT_FLAGS_TIMEOUT \<noteq> 0 \<and>
      (\<forall>pkg. ev = On_data pkg \<longrightarrow>
         calls = [Log_debug, Log_error Response_timed_out_earlier]))"
proof (intro conjI ballI)
  show "CLIENT_REQUEST_TIMEOUT = 15000"
    by (simp add: CLIENT_REQUEST_TIMEOUT_def)
next
  show "snd (CLIENT_send_pkg adm_client req) =
     [Uv_timer_start 15000, Uv_write (req\<lparr>req_checkbit := req_tp req XOR 255\<rparr>)]"
    by (simp add: CLIENT_send_pkg_def CLIENT_REQUEST_TIMEOUT_def Let_def)
next
  fix x
  let ?adm1 = "fold (\<lambda>ev adm. fst (client_step status_msgs cproto adm ev)) evs1 adm_client"
  let ?adm2 = "fst (CLIENT_request_timeout ?adm1)"
  assume "x \<in> set (drop (length evs1)
      (client_run status_msgs cproto adm_client (evs1 @ Timer_expired # evs2)))"
  then have x: "x = (Timer_expired, CLIENT_request_timeout ?adm1) \<or>
      x \<in> set (client_run status_msgs cproto ?adm2 evs2)"
    by (simp add: client_run_append client_run_length)
  obtain ev adm_client' calls where x3: "x = (ev, adm_client', calls)"
    by (cases x)
  have flag: "adm_flags ?adm2 AND CLIENT_FLAGS_TIMEOUT \<noteq> 0"
    by (simp add: CLIENT_request_timeout_def Let_def timeout_bit_set CLIENT_FLAGS_TIMEOUT_def)
  from x have "adm_flags adm_client' AND CLIENT_FLAGS_TIMEOUT \<noteq> 0 \<and>
      (\<forall>pkg. ev = On_data pkg \<longrightarrow> calls = [Log_debug, Log_error Response_timed_out_earlier])"
  proof
    assume "x = (Timer_expired, CLIENT_request_timeout ?adm1)"
    with x3 have "ev = Timer_expired" and "adm_client' = ?adm2"
      by (simp_all add: prod_eq_iff)
    with flag show ?thesis by simp
  next
    assume "x \<in> set (client_run status_msgs cproto ?adm2 evs2)"
    with x3 flag show ?thesis
      by (intro client_run_after_timeout [of ?adm2 ev adm_client' calls status_msgs cproto evs2])
         simp_all
  qed
  with x3 show "case x of (ev, adm_client', calls) \<Rightarrow>
      adm_flags adm_client' AND CLIENT_FLAGS_TIMEOUT \<noteq> 0 \<and>
      (\<forall>pkg. ev = On_data pkg \<longrightarrow> calls = [Log_debug, Log_error Response_timed_out_earlier])"
    by simp
qed

theorem late_replies_dropped_witness:
  "fst (client_run (\<lambda>u. []) \<lparr>CPROTO_REQ_AUTH = 1, CPROTO_REQ_QUERY = 2\<rparr> example_adm
          example_events ! 2) = On_data example_res \<and>
   snd (snd (client_run (\<lambda>u. []) \<lparr>CPROTO_REQ_AUTH = 1, CPROTO_REQ_QUERY = 2\<rparr> example_adm
          example_events ! 2)) = [Log_debug, Log_error Response_timed_out_earlier] \<and>
   adm_flags (fst (snd (client_run (\<lambda>u. []) \<lparr>CPROTO_REQ_AUTH = 1, CPROTO_REQ_QUERY = 2\<rparr>
          example_adm example_events ! 2))) AND CLIENT_FLAGS_TIMEOUT \<noteq> 0"
proof -
  let ?trace = "client_run (\<lambda>u. []) \<lparr>CPROTO_REQ_AUTH = 1, CPROTO_REQ_QUERY = 2\<rparr> example_adm
      example_events"
  have evs: "example_events = [On_connect 0] @ Timer_expired # [On_data example_res]"
    by (simp add: example_events_def)
  note t = late_replies_dropped [where adm_client = example_adm and ?evs1.0 = "[On_connect 0]"
      and ?evs2.0 = "[On_data example_res]" and status_msgs = "\<lambda>u. []"
      and cproto = "\<lparr>CPROTO_REQ_AUTH = 1, CPROTO_REQ_QUERY = 2\<rparr>", folded evs]
  have len: "length ?trace = 3"
    by (simp add: client_run_length example_events_def)
  have ev: "fst (?trace ! 2) = On_data example_res"
    using nth_map [of 2 ?trace fst] len
    by (simp add: client_run_events) (simp add: example_events_def)
  have "drop (length [On_connect 0]) ?trace ! 1 \<in> set (drop (length [On_connect 0]) ?trace)"
    using len by (intro nth_mem) simp
  then have mem: "?trace ! 2 \<in> set (drop (length [On_connect 0]) ?trace)"
    using len by (simp add: numeral_2_eq_2)
  obtain e a c where x: "?trace ! 2 = (e, a, c)"
    by (cases "?trace ! 2")
  from t mem x have "adm_flags a AND CLIENT_FLAGS_TIMEOUT \<noteq> 0 \<and>
      (\<forall>pkg. e = On_data pkg \<longrightarrow> c = [Log_debug, Log_error Response_timed_out_earlier])"
    by fastforce
  with ev x show ?thesis
    by simp
qed

end
